theory Spec2Isabelle
  imports Main
begin

section \<open>JavaScript values, thrown errors and the imported modules\<close>

text \<open>
  The values that cross the controller's interface are plain JavaScript values: the
  arguments the rendering engine passes to the expression functions, the URI handed to
  the loader, a query fragment. Numbers are kept as integers (timestamps in
  milliseconds); a symbol is its identity, a natural number; an object is its list of
  own properties.
\<close>

datatype jsval =
    JUndefined
  | JNull
  | JBool bool
  | JNum int
  | JStr string
  | JSym nat
  | JObj "(string \<times> jsval) list"

text \<open>
  What \<^verbatim>\<open>throw\<close> throws: \<^verbatim>\<open>new Error(message)\<close>, or the
  \<^verbatim>\<open>TypeError\<close> of a property read on \<^verbatim>\<open>undefined\<close> or \<^verbatim>\<open>null\<close>. A function
  that can throw returns \<open>error + 'a\<close>, \<open>Inl\<close> the thrown error; an \<^verbatim>\<open>async\<close>
  function's rejected promise is the same \<open>Inl\<close>, read by the \<^verbatim>\<open>await\<close> of its caller.
\<close>

datatype error = Error string | TypeError string

text \<open>
  A moment.js object, as far as \<^verbatim>\<open>isValid()\<close> and \<^verbatim>\<open>isAfter()\<close> read it: invalid, or an
  instant in milliseconds. \<^verbatim>\<open>a.isAfter(b)\<close> is false when either side is invalid.
\<close>

datatype moment = InvalidDate | Instant int

fun isValid :: "moment \<Rightarrow> bool" where
  "isValid InvalidDate = False"
| "isValid (Instant t) = True"

fun isAfter :: "moment \<Rightarrow> moment \<Rightarrow> bool" where
  "isAfter (Instant a) (Instant b) = (b < a)"
| "isAfter a b = False"

text \<open>An index pattern object of the host's data plugin: its id and its title.\<close>

datatype indexPattern = IndexPattern (ip_id: string) (ip_title: string)

text \<open>
  The modules the file imports and does not define are parameters of the model, one field
  each: \<^verbatim>\<open>moment(x)\<close>, \<^verbatim>\<open>dateMath.parse(x)\<close> (\<open>Inr None\<close> when it returns \<^verbatim>\<open>undefined\<close>,
  \<open>Inl\<close> when it throws, as it does on a truthy value that is not a string),
  \<^verbatim>\<open>JSON.stringify(x)\<close> as a template string prints it, the helpers of \<^verbatim>\<open>Utils\<close>, the index
  pattern service of \<^verbatim>\<open>getData()\<close>, \<^verbatim>\<open>extractIndexPatternsFromSpec\<close>,
  \<^verbatim>\<open>opensearchFilters\<close>, the filter manager's \<^verbatim>\<open>removeFilter\<close> and the loader's original
  \<^verbatim>\<open>sanitize\<close>. A helper that may throw, and an awaited promise that may reject, returns
  \<open>error + 'a\<close>.
\<close>

record env =
  moment :: "jsval \<Rightarrow> moment"
  dateMath_parse :: "jsval \<Rightarrow> error + moment option"
  JSON_stringify :: "jsval \<Rightarrow> string"
  formatErrorToStr :: "error \<Rightarrow> string"
  formatWarningToStr :: "jsval list \<Rightarrow> string"
  handleNonStringIndex :: "jsval \<Rightarrow> string option"
  handleInvalidQuery :: "jsval \<Rightarrow> error + jsval"
  handleInvalidDate :: "jsval \<Rightarrow> error + jsval"
  indexPatterns_find :: "string \<Rightarrow> error + indexPattern list"
  indexPatterns_getDefault :: "error + indexPattern option"
  extractIndexPatternsFromSpec :: "jsval \<Rightarrow> error + indexPattern list"
  buildQueryFilter :: "jsval \<Rightarrow> string \<Rightarrow> jsval \<Rightarrow> jsval"
  compareFilters :: "jsval \<Rightarrow> jsval \<Rightarrow> bool"
  filterManager_removeFilter :: "jsval \<Rightarrow> jsval list \<Rightarrow> error + jsval list"
  originalSanitize :: "jsval \<Rightarrow> jsval \<Rightarrow> error + jsval"

section \<open>The time range normalizer\<close>

datatype tmode = Absolute | Relative

text \<open>
  A side of the result is a moment object (\<open>Resolved\<close>) or the raw input as it was
  passed (\<open>Raw\<close>).
\<close>

datatype tval = Resolved moment | Raw jsval

record timeRange =
  tr_from :: tval
  tr_to :: tval
  tr_mode :: tmode

text \<open>
  The message of \<^verbatim>\<open>visTypeVega.vegaParser.baseView.timeValuesTypeErrorMessage\<close>, with its
  two values filled in.
\<close>

definition timeValuesTypeErrorMessage :: "env \<Rightarrow> jsval \<Rightarrow> jsval \<Rightarrow> string" where
  "timeValuesTypeErrorMessage env start end' =
     ''Error setting time filter: both time values must be either relative or absolute dates. ''
       @ (''start='' @ JSON_stringify env start) @ '', '' @ (''end='' @ JSON_stringify env end')"

text \<open>The last step of \<^verbatim>\<open>_parseTimeRange\<close>: swap the two sides when \<open>reverse\<close> is set.\<close>

definition finishTimeRange :: "tval \<Rightarrow> tval \<Rightarrow> tmode \<Rightarrow> bool \<Rightarrow> timeRange" where
  "finishTimeRange from' to' mode' reverse' =
     (if reverse' then \<lparr>tr_from = to', tr_to = from', tr_mode = mode'\<rparr>
      else \<lparr>tr_from = from', tr_to = to', tr_mode = mode'\<rparr>)"


definition parseTimeRange :: "env \<Rightarrow> jsval \<Rightarrow> jsval \<Rightarrow> error + timeRange" where
  "parseTimeRange env start end' =
     (let absStart = moment env start;
          absEnd = moment env end';
          isValidAbsStart = isValid absStart;
          isValidAbsEnd = isValid absEnd
      in if isValidAbsStart \<and> isValidAbsEnd
         then Inr (finishTimeRange (Resolved absStart) (Resolved absEnd) Absolute
                     (isAfter absStart absEnd))
         else (case dateMath_parse env start of
                 Inl e \<Rightarrow> Inl e
               | Inr parsedStart \<Rightarrow>
                   (case dateMath_parse env end' of
                      Inl e \<Rightarrow> Inl e
                    | Inr parsedEnd \<Rightarrow>
                        (case (parsedStart, parsedEnd) of
                           (Some startDate, Some endDate) \<Rightarrow>
                             if \<not> isValid startDate \<or> \<not> isValid endDate
                             then Inl (Error (timeValuesTypeErrorMessage env start end'))
                             else if isValidAbsStart \<or> isValidAbsEnd
                             then Inr (finishTimeRange (Resolved startDate) (Resolved endDate)
                                         Absolute (isAfter startDate endDate))
                             else Inr (finishTimeRange (Raw start) (Raw end') Relative
                                         (isAfter startDate endDate))
                         | _ \<Rightarrow> Inl (Error (timeValuesTypeErrorMessage env start end'))))))"

section \<open>The loader's URL gate\<close>

text \<open>
  \<^verbatim>\<open>const bypassToken = Symbol()\<close>: one symbol, created when the module is loaded.
  \<^verbatim>\<open>===\<close> against it holds for that symbol alone, so the comparison is equality with
  it; every other value, a symbol of another identity included, differs.
\<close>

definition bypassToken :: jsval where
  "bypassToken = JSym 0"

definition bypassExternalUrlCheck :: "jsval \<Rightarrow> jsval" where
  "bypassExternalUrlCheck url = JObj [(''url'', url), (''bypassToken'', bypassToken)]"

text \<open>
  A property read \<^verbatim>\<open>v.k\<close>: a \<^verbatim>\<open>TypeError\<close> on \<^verbatim>\<open>undefined\<close> and \<^verbatim>\<open>null\<close>, the own
  property of an object, and \<^verbatim>\<open>undefined\<close> otherwise (no primitive has a property
  \<^verbatim>\<open>url\<close> or \<^verbatim>\<open>bypassToken\<close>).
\<close>

fun get_prop :: "jsval \<Rightarrow> string \<Rightarrow> error + jsval" where
  "get_prop JUndefined k = Inl (TypeError (''Cannot read properties of undefined (reading '' @ k @ '')''))"
| "get_prop JNull k = Inl (TypeError (''Cannot read properties of null (reading '' @ k @ '')''))"
| "get_prop (JObj ps) k = Inr (case map_of ps k of None \<Rightarrow> JUndefined | Some v \<Rightarrow> v)"
| "get_prop v k = Inr JUndefined"

definition externalUrlsAreNotEnabledErrorMessage :: string where
  "externalUrlsAreNotEnabledErrorMessage =
     ''External URLs are not enabled. Add   '' @ ''vis_type_vega.enableExternalUrls: true''
       @ ''   to '' @ ''opensearch_dashboards.yml''"

section \<open>The controller\<close>

text \<open>The fields of \<^verbatim>\<open>opts.vegaParser\<close> that the controller reads.\<close>

record parser =
  containerDir :: string
  controlsDir :: string
  renderer :: string
  warnings :: "string list"
  parser_error :: "string option"
  hideWarnings :: bool
  isVegaLite :: bool
  spec :: jsval
  vlspec :: jsval

text \<open>
  A destroy handler is a closure. \<open>DomCleanup\<close> is the one \<^verbatim>\<open>init()\<close> registers. Any
  other (the tooltip's, the debug slot's, a derived view's) is \<open>Custom\<close>: its identity
  and how its call ends, by returning a plain value, by returning a promise that later
  fulfils or rejects, or by throwing. A \<open>Custom\<close> handler does not call back into
  \<^verbatim>\<open>destroy()\<close> or \<^verbatim>\<open>_addDestroyHandler()\<close>.
\<close>

datatype hresult = Returns | Fulfils | Rejects | Throws

datatype handler = DomCleanup | Custom nat hresult

text \<open>
  What a handler call returned: a plain value, or a promise with its eventual outcome
  (\<open>True\<close>: fulfilled).
\<close>

datatype hvalue = Plain | PromiseOf bool

text \<open>
  The promise \<^verbatim>\<open>Promise.all(values)\<close>: its identity (the number of promises the controller
  had created before it) and the values it waits for. It fulfils when none of them is a
  promise that rejects.
\<close>

datatype promise = PromiseAll nat "hvalue list"

fun awaited :: "promise \<Rightarrow> hvalue list" where
  "awaited (PromiseAll i vs) = vs"

fun fulfils :: "promise \<Rightarrow> bool" where
  "fulfils (PromiseAll i vs) = (PromiseOf False \<notin> set vs)"

datatype mkind = Warn | Err

datatype filter = QueryFilter jsval | RangeFilter string tmode tval tval

text \<open>The argument of the host's \<^verbatim>\<open>applyFilter\<close> callback.\<close>

record applyArg =
  timeFieldName :: "string option"
  filters :: "filter list"

record viewConfig =
  logLevel :: string
  config_renderer :: string

text \<open>
  The state of one \<^verbatim>\<open>VegaBaseView\<close>. \<open>messages\<close> is the list \<^verbatim>\<open>_$messages\<close> holds
  (\<open>None\<close>: not created); \<open>container\<close> and \<open>controls\<close> say whether the two elements are
  mounted; \<open>view\<close> is the bound engine view. The effects on the outside are logs:
  \<open>invoked\<close>, the destroy handlers called, in order; \<open>finalized\<close>, the views
  finalized; \<open>applied\<close>, the calls of the host's \<^verbatim>\<open>applyFilter\<close>; \<open>fm_filters\<close>, the filters
  the host's filter manager holds.
\<close>

record ctrl =
  parser :: "parser option"
  enableExternalUrls :: bool
  initialized :: bool
  view :: "nat option"
  container :: bool
  controls :: bool
  messages :: "(mkind \<times> string) list option"
  vegaViewConfig :: "viewConfig option"
  destroyHandlers :: "handler list option"
  ongoingDestroy :: "promise option"
  promises :: nat
  invoked :: "handler list"
  finalized :: "nat list"
  applied :: "applyArg list"
  fm_filters :: "jsval list"

text \<open>The constructor: \<^verbatim>\<open>opts.vegaParser\<close> and \<^verbatim>\<open>getEnableExternalUrls()\<close>.\<close>

definition new_VegaBaseView :: "parser option \<Rightarrow> bool \<Rightarrow> ctrl" where
  "new_VegaBaseView vegaParser externalUrls =
     \<lparr>parser = vegaParser, enableExternalUrls = externalUrls, initialized = False,
      view = None, container = False, controls = False, messages = None,
      vegaViewConfig = None, destroyHandlers = Some [], ongoingDestroy = None,
      promises = 0, invoked = [], finalized = [], applied = [], fm_filters = []\<rparr>"

subsection \<open>The loader's sanitize step\<close>

text \<open>
  \<^verbatim>\<open>loader.sanitize\<close> as \<^verbatim>\<open>createViewConfig()\<close> replaces it. The closure reads
  \<^verbatim>\<open>this._enableExternalUrls\<close> when it is called.
\<close>

definition sanitize :: "env \<Rightarrow> ctrl \<Rightarrow> jsval \<Rightarrow> jsval \<Rightarrow> error + jsval" where
  "sanitize env st uri options =
     (case get_prop uri ''bypassToken'' of
        Inl e \<Rightarrow> Inl e
      | Inr token \<Rightarrow>
          if token = bypassToken
          then (case get_prop uri ''url'' of
                  Inl e \<Rightarrow> Inl e
                | Inr url \<Rightarrow> originalSanitize env url options)
          else if \<not> enableExternalUrls st
          then Inl (Error externalUrlsAreNotEnabledErrorMessage)
          else originalSanitize env uri options)"

text \<open>
  \<^verbatim>\<open>createViewConfig()\<close>: the configuration without the loader, whose sanitize step is
  \<open>sanitize\<close> above. Reading \<^verbatim>\<open>this._parser.renderer\<close> throws when there is no parser.
\<close>

definition createViewConfig :: "ctrl \<Rightarrow> error + viewConfig" where
  "createViewConfig st =
     (case parser st of
        None \<Rightarrow> Inl (TypeError ''Cannot read properties of undefined (reading renderer)'')
      | Some p \<Rightarrow> Inr \<lparr>logLevel = ''Warn'', config_renderer = renderer p\<rparr>)"

subsection \<open>The message sink\<close>

definition addMessage :: "mkind \<Rightarrow> string \<Rightarrow> ctrl \<Rightarrow> ctrl" where
  "addMessage type' text' st =
     st\<lparr>messages := Some ((case messages st of None \<Rightarrow> [] | Some ms \<Rightarrow> ms) @ [(type', text')])\<rparr>"

definition onError :: "env \<Rightarrow> error \<Rightarrow> ctrl \<Rightarrow> ctrl" where
  "onError env e st = addMessage Err (formatErrorToStr env e) st"

definition onWarn :: "env \<Rightarrow> jsval list \<Rightarrow> ctrl \<Rightarrow> ctrl" where
  "onWarn env arguments st =
     (case parser st of
        None \<Rightarrow> addMessage Warn (formatWarningToStr env arguments) st
      | Some p \<Rightarrow>
          if \<not> hideWarnings p then addMessage Warn (formatWarningToStr env arguments) st
          else st)"

text \<open>
  \<^verbatim>\<open>try { body } catch (err) { this.onError(err) }\<close>: the state the body left when it threw
  is the state the handler starts from.
\<close>

definition try_catch :: "(error + 'a) \<times> ctrl \<Rightarrow> (error \<Rightarrow> ctrl \<Rightarrow> ctrl) \<Rightarrow> (error + unit) \<times> ctrl" where
  "try_catch body handler =
     (case body of
        (Inl e, st) \<Rightarrow> (Inr (), handler e st)
      | (Inr v, st) \<Rightarrow> (Inr (), st))"

subsection \<open>Teardown\<close>

text \<open>
  One handler call \<^verbatim>\<open>v()\<close>. The handler of \<^verbatim>\<open>init()\<close> removes the three elements, finalizes
  the bound view and unbinds it.
\<close>

definition run_handler :: "handler \<Rightarrow> ctrl \<Rightarrow> (error + hvalue) \<times> ctrl" where
  "run_handler h st =
     (let st1 = st\<lparr>invoked := invoked st @ [h]\<rparr>
      in case h of
           DomCleanup \<Rightarrow>
             (Inr Plain,
              st1\<lparr>container := False, controls := False, messages := None,
                  finalized := (case view st1 of None \<Rightarrow> finalized st1
                                | Some v \<Rightarrow> finalized st1 @ [v]),
                  view := None\<rparr>)
         | Custom i Returns \<Rightarrow> (Inr Plain, st1)
         | Custom i Fulfils \<Rightarrow> (Inr (PromiseOf True), st1)
         | Custom i Rejects \<Rightarrow> (Inr (PromiseOf False), st1)
         | Custom i Throws \<Rightarrow> (Inl (Error ''destroy handler failed''), st1))"

text \<open>
  \<^verbatim>\<open>handlers.map((v) => v())\<close>: the handlers are called from the first to the last; a
  handler that throws ends the loop, and the exception leaves \<^verbatim>\<open>map\<close>.
\<close>

fun run_handlers :: "handler list \<Rightarrow> ctrl \<Rightarrow> (error + hvalue list) \<times> ctrl" where
  "run_handlers [] st = (Inr [], st)"
| "run_handlers (h # hs) st =
     (case run_handler h st of
        (Inl e, st1) \<Rightarrow> (Inl e, st1)
      | (Inr v, st1) \<Rightarrow>
          (case run_handlers hs st1 of
             (Inl e, st2) \<Rightarrow> (Inl e, st2)
           | (Inr vs, st2) \<Rightarrow> (Inr (v # vs), st2)))"

text \<open>
  \<^verbatim>\<open>destroy()\<close> returns \<^verbatim>\<open>this._ongoingDestroy\<close> (\<open>None\<close>: \<^verbatim>\<open>undefined\<close>). The handlers
  run first, inside the argument of \<^verbatim>\<open>Promise.all\<close>; the two assignments follow.
\<close>

definition destroy :: "ctrl \<Rightarrow> (error + promise option) \<times> ctrl" where
  "destroy st =
     (case destroyHandlers st of
        Some hs \<Rightarrow>
          (case run_handlers hs st of
             (Inl e, st1) \<Rightarrow> (Inl e, st1)
           | (Inr vs, st1) \<Rightarrow>
               (let st2 = st1\<lparr>ongoingDestroy := Some (PromiseAll (promises st1) vs),
                              promises := Suc (promises st1)\<rparr>;
                    st3 = st2\<lparr>destroyHandlers := None\<rparr>
                in (Inr (ongoingDestroy st3), st3)))
      | None \<Rightarrow> (Inr (ongoingDestroy st), st))"

definition addDestroyHandler :: "handler \<Rightarrow> ctrl \<Rightarrow> (error + unit) \<times> ctrl" where
  "addDestroyHandler handler st =
     (case destroyHandlers st of
        Some hs \<Rightarrow> (Inr (), st\<lparr>destroyHandlers := Some (hs @ [handler])\<rparr>)
      | None \<Rightarrow>
          (case run_handler handler st of
             (Inl e, st1) \<Rightarrow> (Inl e, st1)
           | (Inr v, st1) \<Rightarrow> (Inr (), st1)))"

text \<open>Calling \<^verbatim>\<open>destroy()\<close> \<open>n\<close> times in a row: the results of the calls, and the last state.\<close>

fun destroy_times :: "nat \<Rightarrow> ctrl \<Rightarrow> (error + promise option) list \<times> ctrl" where
  "destroy_times 0 st = ([], st)"
| "destroy_times (Suc n) st =
     (case destroy st of (r, st1) \<Rightarrow>
        (case destroy_times n st1 of (rs, st2) \<Rightarrow> (r # rs, st2)))"

text \<open>Registering the handlers of a list, one after the other.\<close>

fun register_all :: "handler list \<Rightarrow> ctrl \<Rightarrow> ctrl" where
  "register_all [] st = st"
| "register_all (h # hs) st = register_all hs (snd (addDestroyHandler h st))"

subsection \<open>Initialisation\<close>

text \<open>
  The body of the \<^verbatim>\<open>try\<close> block of \<^verbatim>\<open>init()\<close>. \<open>initViewCustomizations\<close> is the method of the
  derived class. A parser error that is the empty string is falsy and does not stop
  \<^verbatim>\<open>init()\<close>. The changes to the parent element (emptied, a class and a style added) and
  the constant \<^verbatim>\<open>_vegaViewOptions\<close> are not part of the state.
\<close>

definition init_body :: "(ctrl \<Rightarrow> (error + unit) \<times> ctrl) \<Rightarrow> ctrl \<Rightarrow> (error + unit) \<times> ctrl" where
  "init_body initViewCustomizations st =
     (case parser st of
        None \<Rightarrow> (Inl (TypeError ''Cannot read properties of undefined (reading containerDir)''), st)
      | Some p \<Rightarrow>
          (let st1 = foldl (\<lambda>s warn. addMessage Warn warn s) st (warnings p)
           in if parser_error p \<noteq> None \<and> parser_error p \<noteq> Some []
              then (Inr (), addMessage Err (the (parser_error p)) st1)
              else
                (let st2 = st1\<lparr>container := True, controls := True\<rparr>
                 in case addDestroyHandler DomCleanup st2 of
                      (Inl e, st3) \<Rightarrow> (Inl e, st3)
                    | (Inr u, st3) \<Rightarrow>
                        (case createViewConfig st3 of
                           Inl e \<Rightarrow> (Inl e, st3)
                         | Inr config \<Rightarrow>
                             initViewCustomizations (st3\<lparr>vegaViewConfig := Some config\<rparr>)))))"

text \<open>
  \<^verbatim>\<open>init()\<close>: the second call throws before the \<^verbatim>\<open>try\<close> block; everything thrown inside
  the block goes to \<^verbatim>\<open>onError\<close>.
\<close>

definition init :: "env \<Rightarrow> (ctrl \<Rightarrow> (error + unit) \<times> ctrl) \<Rightarrow> ctrl \<Rightarrow> (error + unit) \<times> ctrl" where
  "init env initViewCustomizations st =
     (if initialized st then (Inl (Error []), st)
      else try_catch (init_body initViewCustomizations (st\<lparr>initialized := True\<rparr>)) (onError env))"

subsection \<open>Index resolution and the filter handlers\<close>

definition indexNotFoundErrorMessage :: "string \<Rightarrow> string" where
  "indexNotFoundErrorMessage index = ''Index '' @ ([CHR 0x22] @ index @ [CHR 0x22]) @ '' not found''"

definition unableToFindDefaultIndexErrorMessage :: string where
  "unableToFindDefaultIndexErrorMessage = ''Unable to find default index''"

text \<open>
  \<^verbatim>\<open>findIndex(index)\<close>, awaited. \<open>index\<close> is a string or \<^verbatim>\<open>undefined\<close>, as
  \<^verbatim>\<open>Utils.handleNonStringIndex\<close> leaves it; \<^verbatim>\<open>if (index)\<close> holds for a string that is not
  empty. \<^verbatim>\<open>[idxObj] = list\<close> takes the first element, \<^verbatim>\<open>undefined\<close> when there is none.
\<close>

definition findIndex :: "env \<Rightarrow> ctrl \<Rightarrow> string option \<Rightarrow> error + string" where
  "findIndex env st index =
     (if index \<noteq> None \<and> index \<noteq> Some []
      then (case indexPatterns_find env (the index) of
              Inl e \<Rightarrow> Inl e
            | Inr [] \<Rightarrow> Inl (Error (indexNotFoundErrorMessage (the index)))
            | Inr (idxObj # rest) \<Rightarrow> Inr (ip_id idxObj))
      else (case parser st of
              None \<Rightarrow> Inl (TypeError ''Cannot read properties of undefined (reading isVegaLite)'')
            | Some p \<Rightarrow>
                (case extractIndexPatternsFromSpec env (if isVegaLite p then vlspec p else spec p) of
                   Inl e \<Rightarrow> Inl e
                 | Inr (idxObj # rest) \<Rightarrow> Inr (ip_id idxObj)
                 | Inr [] \<Rightarrow>
                     (case indexPatterns_getDefault env of
                        Inl e \<Rightarrow> Inl e
                      | Inr (Some defaultIdx) \<Rightarrow> Inr (ip_id defaultIdx)
                      | Inr None \<Rightarrow> Inl (Error unableToFindDefaultIndexErrorMessage)))))"

text \<open>The host's \<^verbatim>\<open>applyFilter\<close> callback: the call is recorded.\<close>

definition applyFilter :: "applyArg \<Rightarrow> ctrl \<Rightarrow> ctrl" where
  "applyFilter arg st = st\<lparr>applied := applied st @ [arg]\<rparr>"

definition addFilterHandler :: "env \<Rightarrow> jsval \<Rightarrow> jsval \<Rightarrow> jsval \<Rightarrow> ctrl \<Rightarrow> (error + unit) \<times> ctrl" where
  "addFilterHandler env query index alias st =
     (case findIndex env st (handleNonStringIndex env index) of
        Inl e \<Rightarrow> (Inl e, st)
      | Inr indexId \<Rightarrow>
          (case handleInvalidQuery env query of
             Inl e \<Rightarrow> (Inl e, st)
           | Inr q \<Rightarrow>
               (Inr (),
                applyFilter \<lparr>timeFieldName = None,
                             filters = [QueryFilter (buildQueryFilter env q indexId alias)]\<rparr> st)))"

definition removeFilterHandler :: "env \<Rightarrow> jsval \<Rightarrow> jsval \<Rightarrow> ctrl \<Rightarrow> (error + unit) \<times> ctrl" where
  "removeFilterHandler env query index st =
     (case findIndex env st (handleNonStringIndex env index) of
        Inl e \<Rightarrow> (Inl e, st)
      | Inr indexId \<Rightarrow>
          (case handleInvalidQuery env query of
             Inl e \<Rightarrow> (Inl e, st)
           | Inr q \<Rightarrow>
               (let filterToRemove = buildQueryFilter env q indexId JUndefined;
                    currentFilters = fm_filters st
                in case find (\<lambda>f. compareFilters env f filterToRemove) currentFilters of
                     None \<Rightarrow> (Inr (), st)
                   | Some existingFilter \<Rightarrow>
                       (case filterManager_removeFilter env existingFilter currentFilters of
                          Inl e \<Rightarrow> (Inr (), onError env e st)
                        | Inr remaining \<Rightarrow> (Inr (), st\<lparr>fm_filters := remaining\<rparr>)))))"

definition removeAllFiltersHandler :: "ctrl \<Rightarrow> (error + unit) \<times> ctrl" where
  "removeAllFiltersHandler st = (Inr (), st\<lparr>fm_filters := []\<rparr>)"

definition setTimeFilterHandler :: "env \<Rightarrow> jsval \<Rightarrow> jsval \<Rightarrow> ctrl \<Rightarrow> (error + unit) \<times> ctrl" where
  "setTimeFilterHandler env start end' st =
     (case handleInvalidDate env start of
        Inl e \<Rightarrow> (Inl e, st)
      | Inr s \<Rightarrow>
          (case handleInvalidDate env end' of
             Inl e \<Rightarrow> (Inl e, st)
           | Inr t \<Rightarrow>
               (case parseTimeRange env s t of
                  Inl e \<Rightarrow> (Inl e, st)
                | Inr r \<Rightarrow>
                    (Inr (),
                     applyFilter
                       \<lparr>timeFieldName = Some ''*'',
                        filters = [RangeFilter ''*'' (tr_mode r) (tr_from r) (tr_to r)]\<rparr> st))))"

subsection \<open>The expression function bridge\<close>

definition vegaFunctions :: "(string \<times> string) list" where
  "vegaFunctions =
     [(''opensearchDashboardsAddFilter'', ''addFilterHandler''),
      (''opensearchDashboardsRemoveFilter'', ''removeFilterHandler''),
      (''opensearchDashboardsRemoveAllFilters'', ''removeAllFiltersHandler''),
      (''opensearchDashboardsSetTimeFilter'', ''setTimeFilterHandler'')]"

text \<open>A method of the instance, called with the argument list; a missing argument is \<^verbatim>\<open>undefined\<close>.\<close>

type_synonym handler_method = "jsval list \<Rightarrow> ctrl \<Rightarrow> (error + unit) \<times> ctrl"

definition arg :: "jsval list \<Rightarrow> nat \<Rightarrow> jsval" where
  "arg args i = (if i < length args then args ! i else JUndefined)"

text \<open>
  \<^verbatim>\<open>this[name]\<close> on an instance of the base class: its four handlers. A derived class may
  have other methods, so the bridge takes the method table as a parameter.
\<close>

definition VegaBaseView_methods :: "env \<Rightarrow> string \<Rightarrow> handler_method option" where
  "VegaBaseView_methods env name =
     (if name = ''addFilterHandler''
      then Some (\<lambda>args. addFilterHandler env (arg args 0) (arg args 1) (arg args 2))
      else if name = ''removeFilterHandler''
      then Some (\<lambda>args. removeFilterHandler env (arg args 0) (arg args 1))
      else if name = ''removeAllFiltersHandler''
      then Some (\<lambda>args. removeAllFiltersHandler)
      else if name = ''setTimeFilterHandler''
      then Some (\<lambda>args. setTimeFilterHandler env (arg args 0) (arg args 1))
      else None)"

definition functionIsNotDefinedForGraphErrorMessage :: "string \<Rightarrow> string" where
  "functionIsNotDefinedForGraphErrorMessage funcName =
     (funcName @ ''()'') @ '' is not defined for this graph''"

text \<open>The body of the \<^verbatim>\<open>try\<close> block of \<^verbatim>\<open>vegaFunctionsHandler\<close>.\<close>

definition dispatch :: "(string \<Rightarrow> handler_method option) \<Rightarrow> string \<Rightarrow> jsval list \<Rightarrow> ctrl \<Rightarrow> (error + unit) \<times> ctrl" where
  "dispatch methods funcName args st =
     (case map_of vegaFunctions funcName of
        None \<Rightarrow> (Inl (Error (functionIsNotDefinedForGraphErrorMessage funcName)), st)
      | Some handlerFunc \<Rightarrow>
          (case methods handlerFunc of
             None \<Rightarrow> (Inl (Error (functionIsNotDefinedForGraphErrorMessage funcName)), st)
           | Some m \<Rightarrow> m args st))"

definition vegaFunctionsHandler ::
  "env \<Rightarrow> (string \<Rightarrow> handler_method option) \<Rightarrow> string \<Rightarrow> jsval list \<Rightarrow> ctrl \<Rightarrow> (error + unit) \<times> ctrl" where
  "vegaFunctionsHandler env methods funcName args st =
     try_catch (dispatch methods funcName args st) (onError env)"

section \<open>Predicates of the statements, and concrete instances\<close>

text \<open>The records the message sink holds at the moment.\<close>

definition sink :: "ctrl \<Rightarrow> (mkind \<times> string) list" where
  "sink st = (case messages st of None \<Rightarrow> [] | Some ms \<Rightarrow> ms)"

text \<open>A handler whose call throws; a handler whose promise rejects.\<close>

fun throws :: "handler \<Rightarrow> bool" where
  "throws (Custom i Throws) = True"
| "throws h = False"

fun rejects :: "handler \<Rightarrow> bool" where
  "rejects (Custom i Rejects) = True"
| "rejects h = False"

text \<open>
  The handlers a run of \<^verbatim>\<open>map\<close> over the chain calls: every handler up to the first that
  throws, that one included.
\<close>

fun called_until_throw :: "handler list \<Rightarrow> handler list" where
  "called_until_throw [] = []"
| "called_until_throw (h # hs) = (if throws h then [h] else h # called_until_throw hs)"

text \<open>
  A value made of JSON data only: no symbol in it, at any depth. A spec, which is JSON,
  holds such values only.
\<close>

fun symbol_free :: "jsval \<Rightarrow> bool"
  and symbol_free_props :: "(string \<times> jsval) list \<Rightarrow> bool" where
  "symbol_free (JSym n) = False"
| "symbol_free (JObj ps) = symbol_free_props ps"
| "symbol_free v = True"
| "symbol_free_props [] = True"
| "symbol_free_props (p # ps) = (symbol_free (snd p) \<and> symbol_free_props ps)"

text \<open>A derived view whose customization step does nothing.\<close>

definition no_customizations :: "ctrl \<Rightarrow> (error + unit) \<times> ctrl" where
  "no_customizations st = (Inr (), st)"

text \<open>
  One instance of the imported modules, small enough to evaluate. For \<^verbatim>\<open>moment()\<close>, a
  number within the range of a JavaScript date, the date \<^verbatim>\<open>2020-01-01\<close> and \<^verbatim>\<open>undefined\<close> (the
  present) are valid. \<^verbatim>\<open>dateMath.parse\<close> returns \<^verbatim>\<open>undefined\<close> on a falsy value, parses
  \<^verbatim>\<open>2020-01-01\<close>, \<^verbatim>\<open>now\<close> and \<^verbatim>\<open>now-1h\<close>, returns an invalid moment on any other string, and
  throws on every other value, which has no \<^verbatim>\<open>substring\<close> method. The host knows the index
  pattern \<^verbatim>\<open>logs\<close> and has a default index pattern, the spec names no index, and the
  original sanitize step accepts strings.
\<close>

definition example_moment :: "jsval \<Rightarrow> moment" where
  "example_moment v =
     (case v of
        JUndefined \<Rightarrow> Instant 1600000000000
      | JNum n \<Rightarrow> if - 8640000000000000 \<le> n \<and> n \<le> 8640000000000000 then Instant n else InvalidDate
      | JStr s \<Rightarrow> if s = ''2020-01-01'' then Instant 1577836800000 else InvalidDate
      | _ \<Rightarrow> InvalidDate)"

definition example_dateMath_parse :: "jsval \<Rightarrow> error + moment option" where
  "example_dateMath_parse v =
     (case v of
        JUndefined \<Rightarrow> Inr None
      | JNull \<Rightarrow> Inr None
      | JBool b \<Rightarrow> if b then Inl (TypeError ''text.substring is not a function'') else Inr None
      | JNum n \<Rightarrow> if n = 0 then Inr None else Inl (TypeError ''text.substring is not a function'')
      | JStr s \<Rightarrow>
          if s = [] then Inr None
          else if s = ''2020-01-01'' then Inr (Some (Instant 1577836800000))
          else if s = ''now'' then Inr (Some (Instant 1600000000000))
          else if s = ''now-1h'' then Inr (Some (Instant 1599996400000))
          else Inr (Some InvalidDate)
      | _ \<Rightarrow> Inl (TypeError ''text.substring is not a function''))"

definition example_stringify :: "jsval \<Rightarrow> string" where
  "example_stringify v =
     (case v of JStr s \<Rightarrow> [CHR 0x22] @ s @ [CHR 0x22] | JNull \<Rightarrow> ''null'' | _ \<Rightarrow> ''undefined'')"

definition example_formatErrorToStr :: "error \<Rightarrow> string" where
  "example_formatErrorToStr e = (case e of Error m \<Rightarrow> m | TypeError m \<Rightarrow> m)"

definition example_formatWarningToStr :: "jsval list \<Rightarrow> string" where
  "example_formatWarningToStr args = (case args of [JStr s] \<Rightarrow> s | _ \<Rightarrow> ''warning'')"

definition example_handleNonStringIndex :: "jsval \<Rightarrow> string option" where
  "example_handleNonStringIndex v = (case v of JStr s \<Rightarrow> Some s | _ \<Rightarrow> None)"

definition example_find :: "string \<Rightarrow> error + indexPattern list" where
  "example_find title = Inr (if title = ''logs'' then [IndexPattern ''id-logs'' ''logs''] else [])"

definition example_extract :: "jsval \<Rightarrow> error + indexPattern list" where
  "example_extract s = Inr []"

definition example_buildQueryFilter :: "jsval \<Rightarrow> string \<Rightarrow> jsval \<Rightarrow> jsval" where
  "example_buildQueryFilter q indexId alias =
     JObj [(''query'', q), (''index'', JStr indexId), (''alias'', alias)]"

definition example_removeFilter :: "jsval \<Rightarrow> jsval list \<Rightarrow> error + jsval list" where
  "example_removeFilter f fs = Inr (removeAll f fs)"

definition example_sanitize :: "jsval \<Rightarrow> jsval \<Rightarrow> error + jsval" where
  "example_sanitize uri options =
     (case uri of
        JStr s \<Rightarrow> Inr (JObj [(''href'', JStr s)])
      | _ \<Rightarrow> Inl (Error ''Sanitize failure, invalid URI''))"

definition example_env :: env where
  "example_env =
     \<lparr>moment = example_moment,
      dateMath_parse = example_dateMath_parse,
      JSON_stringify = example_stringify,
      formatErrorToStr = example_formatErrorToStr,
      formatWarningToStr = example_formatWarningToStr,
      handleNonStringIndex = example_handleNonStringIndex,
      handleInvalidQuery = Inr,
      handleInvalidDate = Inr,
      indexPatterns_find = example_find,
      indexPatterns_getDefault = Inr (Some (IndexPattern ''id-default'' ''default'')),
      extractIndexPatternsFromSpec = example_extract,
      buildQueryFilter = example_buildQueryFilter,
      compareFilters = (=),
      filterManager_removeFilter = example_removeFilter,
      originalSanitize = example_sanitize\<rparr>"

definition example_parser :: parser where
  "example_parser =
     \<lparr>containerDir = ''column'', controlsDir = ''row'', renderer = ''canvas'',
      warnings = [''deprecated property''], parser_error = None, hideWarnings = True,
      isVegaLite = False, spec = JObj [], vlspec = JUndefined\<rparr>"

definition example_view :: ctrl where
  "example_view = new_VegaBaseView (Some example_parser) False"

text \<open>The example view with external URLs enabled.\<close>

definition enabled_view :: ctrl where
  "enabled_view = new_VegaBaseView (Some example_parser) True"

text \<open>The value a handler that does not throw returns.\<close>

fun returned :: "handler \<Rightarrow> hvalue" where
  "returned (Custom i Fulfils) = PromiseOf True"
| "returned (Custom i Rejects) = PromiseOf False"
| "returned h = Plain"

text \<open>
  Three views for the teardown: one whose second handler throws, one whose handler returns
  a promise that rejects, and one with two handlers that succeed.
\<close>

definition failing_view :: ctrl where
  "failing_view = register_all [Custom 1 Returns, Custom 2 Throws] (new_VegaBaseView None False)"

definition rejecting_view :: ctrl where
  "rejecting_view = register_all [Custom 3 Rejects] (new_VegaBaseView None False)"

definition two_handler_view :: ctrl where
  "two_handler_view = register_all [Custom 1 Returns, Custom 2 Fulfils] (new_VegaBaseView None False)"

text \<open>
  A URI that imitates a wrapped one: the same two properties, the token a symbol of
  another identity.
\<close>

definition forged_uri :: jsval where
  "forged_uri = JObj [(''url'', JStr ''http://example.org/data.json''), (''bypassToken'', JSym 1)]"

text \<open>
  A URI a spec can hold, JSON data only, that imitates a wrapped one as far as JSON can:
  its \<^verbatim>\<open>bypassToken\<close> is \<^verbatim>\<open>null\<close>.
\<close>

definition json_forged_uri :: jsval where
  "json_forged_uri = JObj [(''url'', JStr ''http://example.org/data.json''), (''bypassToken'', JNull)]"

text \<open>
  Two more instances of the imported modules: one where the spec names an index pattern,
  one where the host has no default index pattern. And an instance with none of the four
  handler methods.
\<close>

definition example_extract_spec :: "jsval \<Rightarrow> error + indexPattern list" where
  "example_extract_spec s = Inr [IndexPattern ''id-spec'' ''spec-index'']"

definition spec_index_env :: env where
  "spec_index_env = example_env\<lparr>extractIndexPatternsFromSpec := example_extract_spec\<rparr>"

definition no_default_env :: env where
  "no_default_env = example_env\<lparr>indexPatterns_getDefault := Inr None\<rparr>"

definition no_methods :: "string \<Rightarrow> handler_method option" where
  "no_methods name = None"

section \<open>Verified properties\<close>

lemmas example_simps =
  example_env_def example_moment_def example_dateMath_parse_def example_stringify_def
  example_formatErrorToStr_def example_formatWarningToStr_def example_handleNonStringIndex_def
  example_find_def example_extract_def example_buildQueryFilter_def example_removeFilter_def
  example_sanitize_def

subsection \<open>The time range normalizer\<close>

lemma example_relative_range:
  "parseTimeRange example_env (JStr ''now-1h'') (JStr ''now'') =
     Inr \<lparr>tr_from = Raw (JStr ''now-1h''), tr_to = Raw (JStr ''now''), tr_mode = Relative\<rparr>"
  by (simp add: parseTimeRange_def finishTimeRange_def example_simps)

lemma example_mixed_range:
  "parseTimeRange example_env (JStr ''now-1h'') (JStr ''2020-01-01'') =
     Inr \<lparr>tr_from = Resolved (Instant 1577836800000), tr_to = Resolved (Instant 1599996400000),
          tr_mode = Absolute\<rparr>"
  by (simp add: parseTimeRange_def finishTimeRange_def example_simps)

text \<open>
  Claim C3. For every pair of inputs that \<^verbatim>\<open>_parseTimeRange\<close> accepts, the mode of the result
  is relative exactly when \<^verbatim>\<open>moment()\<close> finds neither input a valid absolute timestamp. In
  that case the two sides of the result are the two raw inputs themselves (in the order
  given, or swapped). In every other case the mode is absolute and the two sides are
  valid parsed moments of the two inputs: those of \<^verbatim>\<open>moment()\<close> when both inputs are
  absolute, those of \<^verbatim>\<open>dateMath.parse\<close> when only one is.
\<close>

theorem time_range_mode:
  "parseTimeRange env start end' = Inr r \<Longrightarrow>
     (tr_mode r = Relative \<longleftrightarrow> \<not> isValid (moment env start) \<and> \<not> isValid (moment env end'))
     \<and> (tr_mode r = Relative \<longrightarrow>
          (tr_from r = Raw start \<and> tr_to r = Raw end') \<or> (tr_from r = Raw end' \<and> tr_to r = Raw start))
     \<and> (tr_mode r \<noteq> Relative \<longrightarrow>
          tr_mode r = Absolute
          \<and> (\<exists>a b. isValid a \<and> isValid b
                \<and> ((a = moment env start \<and> b = moment env end')
                    \<or> (dateMath_parse env start = Inr (Some a)
                        \<and> dateMath_parse env end' = Inr (Some b)))
                \<and> ((tr_from r = Resolved a \<and> tr_to r = Resolved b)
                    \<or> (tr_from r = Resolved b \<and> tr_to r = Resolved a))))"
  unfolding parseTimeRange_def finishTimeRange_def Let_def
  by (auto split: if_splits option.splits sum.splits; blast)

theorem time_range_mode_witness:
  "parseTimeRange example_env (JStr ''now-1h'') (JStr ''now'') =
     Inr \<lparr>tr_from = Raw (JStr ''now-1h''), tr_to = Raw (JStr ''now''), tr_mode = Relative\<rparr>
   \<and> \<not> isValid (moment example_env (JStr ''now-1h''))
   \<and> \<not> isValid (moment example_env (JStr ''now''))
   \<and> parseTimeRange example_env (JStr ''now-1h'') (JStr ''2020-01-01'') =
     Inr \<lparr>tr_from = Resolved (Instant 1577836800000), tr_to = Resolved (Instant 1599996400000),
          tr_mode = Absolute\<rparr>
   \<and> isValid (moment example_env (JStr ''2020-01-01''))"
  using time_range_mode [OF example_relative_range] time_range_mode [OF example_mixed_range]
    example_relative_range example_mixed_range
  by (simp add: example_simps)




text \<open>
  Claim C7. For two inputs \<open>a\<close> and \<open>b\<close> that are both valid absolute timestamps, \<open>a\<close>
  after \<open>b\<close>, \<^verbatim>\<open>_parseTimeRange(a, b)\<close> and \<^verbatim>\<open>_parseTimeRange(b, a)\<close> return the same range:
  absolute mode, \<open>from\<close> the earlier moment (that of \<open>b\<close>) and \<open>to\<close> the later one (that
  of \<open>a\<close>).
\<close>

theorem time_range_symmetry:
  "isValid (moment env a) \<Longrightarrow> isValid (moment env b) \<Longrightarrow> isAfter (moment env a) (moment env b) \<Longrightarrow>
     parseTimeRange env a b =
       Inr \<lparr>tr_from = Resolved (moment env b), tr_to = Resolved (moment env a), tr_mode = Absolute\<rparr>
     \<and> parseTimeRange env b a = parseTimeRange env a b
     \<and> \<not> isAfter (moment env b) (moment env a)"
  unfolding parseTimeRange_def finishTimeRange_def Let_def
  by (cases "moment env a"; cases "moment env b"; simp)

theorem time_range_symmetry_witness:
  "isValid (moment example_env (JNum 7)) \<and> isValid (moment example_env (JNum 5))
   \<and> isAfter (moment example_env (JNum 7)) (moment example_env (JNum 5))
   \<and> parseTimeRange example_env (JNum 7) (JNum 5) =
       Inr \<lparr>tr_from = Resolved (Instant 5), tr_to = Resolved (Instant 7), tr_mode = Absolute\<rparr>
   \<and> parseTimeRange example_env (JNum 5) (JNum 7) =
       Inr \<lparr>tr_from = Resolved (Instant 5), tr_to = Resolved (Instant 7), tr_mode = Absolute\<rparr>"
  using time_range_symmetry [of example_env "JNum 7" "JNum 5"]
  by (simp add: example_simps)

subsection \<open>Teardown\<close>

lemma run_handler_invoked: "invoked (snd (run_handler h st)) = invoked st @ [h]"
  by (cases h rule: throws.cases) (auto simp: run_handler_def Let_def split: hresult.splits)

lemma run_handler_frame:
  "destroyHandlers (snd (run_handler h st)) = destroyHandlers st"
  "ongoingDestroy (snd (run_handler h st)) = ongoingDestroy st"
  "promises (snd (run_handler h st)) = promises st"
  by (auto simp: run_handler_def Let_def split: handler.splits hresult.splits)

lemma run_handler_result:
  "fst (run_handler h st) = (if throws h then Inl (Error ''destroy handler failed'') else Inr (returned h))"
  by (cases h rule: returned.cases) (auto simp: run_handler_def Let_def split: hresult.splits)

lemma run_handlers_frame:
  "destroyHandlers (snd (run_handlers hs st)) = destroyHandlers st
   \<and> ongoingDestroy (snd (run_handlers hs st)) = ongoingDestroy st
   \<and> promises (snd (run_handlers hs st)) = promises st"
proof (induction hs arbitrary: st)
  case Nil
  show ?case by simp
next
  case (Cons h hs)
  obtain r st1 where r: "run_handler h st = (r, st1)" by (cases "run_handler h st")
  have f: "destroyHandlers st1 = destroyHandlers st" "ongoingDestroy st1 = ongoingDestroy st"
    "promises st1 = promises st"
    using run_handler_frame [of h st] r by simp_all
  show ?case
  proof (cases r)
    case (Inl e)
    with r f show ?thesis by simp
  next
    case (Inr v)
    obtain r2 st2 where r2: "run_handlers hs st1 = (r2, st2)" by (cases "run_handlers hs st1")
    with Cons.IH [of st1] f r Inr show ?thesis by (cases r2) simp_all
  qed
qed

lemma run_handlers_prefix:
  "\<exists>k. invoked (snd (run_handlers hs st)) = invoked st @ take k hs"
proof (induction hs arbitrary: st)
  case Nil
  show ?case by simp
next
  case (Cons h hs)
  obtain r st1 where r: "run_handler h st = (r, st1)" by (cases "run_handler h st")
  have i: "invoked st1 = invoked st @ [h]" using run_handler_invoked [of h st] r by simp
  show ?case
  proof (cases r)
    case (Inl e)
    with r i have "invoked (snd (run_handlers (h # hs) st)) = invoked st @ take 1 (h # hs)" by simp
    then show ?thesis by blast
  next
    case (Inr v)
    obtain r2 st2 where r2: "run_handlers hs st1 = (r2, st2)" by (cases "run_handlers hs st1")
    from Cons.IH [of st1] obtain k where k: "invoked (snd (run_handlers hs st1)) = invoked st1 @ take k hs"
      by blast
    have "snd (run_handlers (h # hs) st) = st2" using r Inr r2 by (cases r2) simp_all
    with k r2 i have "invoked (snd (run_handlers (h # hs) st)) = invoked st @ take (Suc k) (h # hs)"
      by simp
    then show ?thesis by blast
  qed
qed

lemma run_handlers_all:
  "\<forall>h\<in>set hs. \<not> throws h \<Longrightarrow>
     fst (run_handlers hs st) = Inr (map returned hs)
     \<and> invoked (snd (run_handlers hs st)) = invoked st @ hs"
proof (induction hs arbitrary: st)
  case Nil
  show ?case by simp
next
  case (Cons h hs)
  obtain r st1 where r: "run_handler h st = (r, st1)" by (cases "run_handler h st")
  have i: "invoked st1 = invoked st @ [h]" using run_handler_invoked [of h st] r by simp
  have v: "r = Inr (returned h)" using run_handler_result [of h st] r Cons.prems by simp
  obtain r2 st2 where r2: "run_handlers hs st1 = (r2, st2)" by (cases "run_handlers hs st1")
  from Cons.IH [of st1] Cons.prems r2
  have "r2 = Inr (map returned hs)" "invoked st2 = invoked st1 @ hs" by simp_all
  with r v r2 i show ?case by simp
qed

lemma destroy_claimed:
  "destroyHandlers st = None \<Longrightarrow> destroy st = (Inr (ongoingDestroy st), st)"
  by (simp add: destroy_def)

lemma destroy_times_claimed:
  "destroyHandlers st = None \<Longrightarrow> destroy_times n st = (replicate n (Inr (ongoingDestroy st)), st)"
  by (induction n) (simp_all add: destroy_claimed)

lemma destroy_first:
  assumes "destroyHandlers st = Some hs" and "\<forall>h\<in>set hs. \<not> throws h"
  shows "fst (destroy st) = Inr (Some (PromiseAll (promises st) (map returned hs)))"
    and "invoked (snd (destroy st)) = invoked st @ hs"
    and "destroyHandlers (snd (destroy st)) = None"
    and "ongoingDestroy (snd (destroy st)) = Some (PromiseAll (promises st) (map returned hs))"
proof -
  obtain r st1 where r: "run_handlers hs st = (r, st1)" by (cases "run_handlers hs st")
  from run_handlers_all [OF assms(2), of st] r
  have a: "r = Inr (map returned hs)" "invoked st1 = invoked st @ hs" by simp_all
  from run_handlers_frame [of hs st] r have p: "promises st1 = promises st" by simp
  have d: "destroy st =
      (Inr (Some (PromiseAll (promises st) (map returned hs))),
       st1\<lparr>ongoingDestroy := Some (PromiseAll (promises st) (map returned hs)),
           promises := Suc (promises st), destroyHandlers := None\<rparr>)"
    using assms(1) r a p by (simp add: destroy_def Let_def)
  show "fst (destroy st) = Inr (Some (PromiseAll (promises st) (map returned hs)))"
    and "invoked (snd (destroy st)) = invoked st @ hs"
    and "destroyHandlers (snd (destroy st)) = None"
    and "ongoingDestroy (snd (destroy st)) = Some (PromiseAll (promises st) (map returned hs))"
    using d a by simp_all
qed

lemma fulfils_returned:
  "fulfils (PromiseAll i (map returned hs)) \<longleftrightarrow> (\<forall>h\<in>set hs. \<not> rejects h)"
proof (induction hs)
  case Nil
  show ?case by simp
next
  case (Cons h hs)
  have "returned h = PromiseOf False \<longleftrightarrow> rejects h"
    by (cases h rule: returned.cases) simp_all
  with Cons show ?case by auto
qed

lemma run_handlers_called:
  "invoked (snd (run_handlers hs st)) = invoked st @ called_until_throw hs"
proof (induction hs arbitrary: st)
  case Nil
  show ?case by simp
next
  case (Cons h hs)
  obtain r st1 where r: "run_handler h st = (r, st1)" by (cases "run_handler h st")
  have i: "invoked st1 = invoked st @ [h]" using run_handler_invoked [of h st] r by simp
  show ?case
  proof (cases "throws h")
    case True
    then have "r = Inl (Error ''destroy handler failed'')"
      using run_handler_result [of h st] r by simp
    with r i True show ?thesis by simp
  next
    case False
    then have v: "r = Inr (returned h)" using run_handler_result [of h st] r by simp
    obtain r2 st2 where r2: "run_handlers hs st1 = (r2, st2)" by (cases "run_handlers hs st1")
    from Cons.IH [of st1] r2 have "invoked st2 = invoked st1 @ called_until_throw hs" by simp
    with r v r2 i False show ?thesis by (cases r2) simp_all
  qed
qed

lemma run_handlers_throwing:
  "\<exists>h\<in>set hs. throws h \<Longrightarrow> fst (run_handlers hs st) = Inl (Error ''destroy handler failed'')"
proof (induction hs arbitrary: st)
  case Nil
  then show ?case by simp
next
  case (Cons h hs)
  obtain r st1 where r: "run_handler h st = (r, st1)" by (cases "run_handler h st")
  show ?case
  proof (cases "throws h")
    case True
    then have "r = Inl (Error ''destroy handler failed'')"
      using run_handler_result [of h st] r by simp
    with r show ?thesis by simp
  next
    case False
    then have v: "r = Inr (returned h)" using run_handler_result [of h st] r by simp
    from False Cons.prems have "\<exists>g\<in>set hs. throws g" by simp
    from Cons.IH [OF this, of st1]
    have "fst (run_handlers hs st1) = Inl (Error ''destroy handler failed'')" .
    with r v show ?thesis by (cases "run_handlers hs st1") simp
  qed
qed

lemma destroy_throwing:
  assumes "destroyHandlers st = Some hs" and "\<exists>h\<in>set hs. throws h"
  shows "fst (destroy st) = Inl (Error ''destroy handler failed'')"
    and "invoked (snd (destroy st)) = invoked st @ called_until_throw hs"
    and "destroyHandlers (snd (destroy st)) = Some hs"
    and "ongoingDestroy (snd (destroy st)) = ongoingDestroy st"
proof -
  obtain r st1 where r: "run_handlers hs st = (r, st1)" by (cases "run_handlers hs st")
  from run_handlers_throwing [OF assms(2), of st] r
  have e: "r = Inl (Error ''destroy handler failed'')" by simp
  have d: "destroy st = (Inl (Error ''destroy handler failed''), st1)"
    using assms(1) r e by (simp add: destroy_def)
  from run_handlers_frame [of hs st] r assms(1)
  have f: "destroyHandlers st1 = Some hs" "ongoingDestroy st1 = ongoingDestroy st" by simp_all
  from run_handlers_called [of hs st] r
  have c: "invoked st1 = invoked st @ called_until_throw hs" by simp
  show "fst (destroy st) = Inl (Error ''destroy handler failed'')"
    and "invoked (snd (destroy st)) = invoked st @ called_until_throw hs"
    and "destroyHandlers (snd (destroy st)) = Some hs"
    and "ongoingDestroy (snd (destroy st)) = ongoingDestroy st"
    using d f c by simp_all
qed

lemma called_until_throw_all:
  "\<forall>h\<in>set hs. \<not> throws h \<Longrightarrow> called_until_throw (hs @ gs) = hs @ called_until_throw gs"
  by (induction hs) simp_all

lemma called_until_throw_cut:
  "\<exists>h\<in>set hs. throws h \<Longrightarrow> called_until_throw (hs @ gs) = called_until_throw hs"
  by (induction hs) auto

text \<open>
  Claim C1, as amended. Take a view whose teardown has not begun. When none of its
  registered handlers throws, \<open>n \<ge> 1\<close> calls of \<^verbatim>\<open>destroy()\<close> call each registered handler
  exactly once, all of them in the first call; every call returns the same promise (the
  same identity, waiting for the same values); and the promise fulfils exactly when no
  handler returned a promise that rejects. The chain is cleared after the handlers have
  run, not before: when a handler throws, \<^verbatim>\<open>destroy()\<close> throws, having called the
  handlers up to that one, and the chain is still in place and no promise is stored.
\<close>

theorem destroy_idempotent:
  "destroyHandlers st = Some hs \<Longrightarrow> 0 < n \<Longrightarrow>
     ((\<forall>h\<in>set hs. \<not> throws h) \<longrightarrow>
        fst (destroy_times n st) = replicate n (Inr (Some (PromiseAll (promises st) (map returned hs))))
        \<and> invoked (snd (destroy_times n st)) = invoked st @ hs
        \<and> destroyHandlers (snd (destroy_times n st)) = None
        \<and> (fulfils (PromiseAll (promises st) (map returned hs)) \<longleftrightarrow> (\<forall>h\<in>set hs. \<not> rejects h)))
     \<and> ((\<exists>h\<in>set hs. throws h) \<longrightarrow>
        fst (destroy st) = Inl (Error ''destroy handler failed'')
        \<and> invoked (snd (destroy st)) = invoked st @ called_until_throw hs
        \<and> destroyHandlers (snd (destroy st)) = Some hs
        \<and> ongoingDestroy (snd (destroy st)) = ongoingDestroy st)
     \<and> destroyHandlers (snd (run_handlers hs st)) = Some hs"
proof (intro conjI impI)
  assume c: "destroyHandlers st = Some hs" and n: "0 < n"
  show "destroyHandlers (snd (run_handlers hs st)) = Some hs"
    using run_handlers_frame [of hs st] c by simp
  {
    assume t: "\<exists>h\<in>set hs. throws h"
    show "fst (destroy st) = Inl (Error ''destroy handler failed'')"
      and "invoked (snd (destroy st)) = invoked st @ called_until_throw hs"
      and "destroyHandlers (snd (destroy st)) = Some hs"
      and "ongoingDestroy (snd (destroy st)) = ongoingDestroy st"
      using destroy_throwing [OF c t] by simp_all
  }
  {
    assume t: "\<forall>h\<in>set hs. \<not> throws h"
    let ?p = "PromiseAll (promises st) (map returned hs)"
    from n obtain m where m: "n = Suc m" by (cases n) simp_all
    obtain r st1 where d: "destroy st = (r, st1)" by (cases "destroy st")
    from destroy_first [OF c t] d
    have f: "r = Inr (Some ?p)" "invoked st1 = invoked st @ hs" "destroyHandlers st1 = None"
      "ongoingDestroy st1 = Some ?p" by simp_all
    from destroy_times_claimed [OF f(3), of m] f(4)
    have "destroy_times m st1 = (replicate m (Inr (Some ?p)), st1)" by simp
    with d m f have a: "destroy_times n st = (replicate n (Inr (Some ?p)), st1)" by simp
    show "fst (destroy_times n st) = replicate n (Inr (Some ?p))" using a by simp
    show "invoked (snd (destroy_times n st)) = invoked st @ hs" using a f by simp
    show "destroyHandlers (snd (destroy_times n st)) = None" using a f by simp
    show "fulfils ?p \<longleftrightarrow> (\<forall>h\<in>set hs. \<not> rejects h)"
      using fulfils_returned [of "promises st" hs] by simp
  }
qed

theorem destroy_idempotent_witness:
  "destroyHandlers two_handler_view = Some [Custom 1 Returns, Custom 2 Fulfils]
   \<and> \<not> throws (Custom 1 Returns) \<and> \<not> throws (Custom 2 Fulfils) \<and> (0::nat) < 3
   \<and> fst (destroy_times 3 two_handler_view) =
       [Inr (Some (PromiseAll 0 [Plain, PromiseOf True])),
        Inr (Some (PromiseAll 0 [Plain, PromiseOf True])),
        Inr (Some (PromiseAll 0 [Plain, PromiseOf True]))]
   \<and> invoked (snd (destroy_times 3 two_handler_view)) = [Custom 1 Returns, Custom 2 Fulfils]
   \<and> fulfils (PromiseAll 0 [Plain, PromiseOf True])
   \<and> destroyHandlers failing_view = Some [Custom 1 Returns, Custom 2 Throws]
   \<and> throws (Custom 2 Throws)
   \<and> fst (destroy failing_view) = Inl (Error ''destroy handler failed'')
   \<and> destroyHandlers (snd (destroy failing_view)) = Some [Custom 1 Returns, Custom 2 Throws]
   \<and> ongoingDestroy (snd (destroy failing_view)) = None"
proof -
  have c: "destroyHandlers two_handler_view = Some [Custom 1 Returns, Custom 2 Fulfils]"
    by (simp add: two_handler_view_def new_VegaBaseView_def addDestroyHandler_def)
  have p: "promises two_handler_view = 0" "invoked two_handler_view = []"
    by (simp_all add: two_handler_view_def new_VegaBaseView_def addDestroyHandler_def)
  have c': "destroyHandlers failing_view = Some [Custom 1 Returns, Custom 2 Throws]"
    by (simp add: failing_view_def new_VegaBaseView_def addDestroyHandler_def)
  have p': "ongoingDestroy failing_view = None"
    by (simp add: failing_view_def new_VegaBaseView_def addDestroyHandler_def)
  have n: "(0::nat) < 3" by simp
  show ?thesis
    using destroy_idempotent [OF c n] destroy_idempotent [OF c' n] c c' p p'
    by (simp add: numeral_3_eq_3)
qed

text \<open>
  Claim C1 as stated fails. With a first handler that returns and a second that throws,
  the first \<^verbatim>\<open>destroy()\<close> throws and leaves the chain in place, because the chain is
  cleared only after the handlers have run; the second \<^verbatim>\<open>destroy()\<close> calls both handlers
  again and throws again, so no call returns a promise. With a handler whose promise
  rejects, the promise \<^verbatim>\<open>destroy()\<close> returns does not fulfil.
\<close>

theorem destroy_idempotent_counterexample:
  "fst (destroy_times 2 failing_view) =
     [Inl (Error ''destroy handler failed''), Inl (Error ''destroy handler failed'')]
   \<and> invoked (snd (destroy_times 2 failing_view)) =
       [Custom 1 Returns, Custom 2 Throws, Custom 1 Returns, Custom 2 Throws]
   \<and> destroyHandlers (snd (destroy failing_view)) = Some [Custom 1 Returns, Custom 2 Throws]
   \<and> fst (destroy rejecting_view) = Inr (Some (PromiseAll 0 [PromiseOf False]))
   \<and> \<not> fulfils (PromiseAll 0 [PromiseOf False])"
  by (simp add: failing_view_def rejecting_view_def new_VegaBaseView_def addDestroyHandler_def
      destroy_def run_handler_def numeral_2_eq_2)

lemma register_all_enqueues:
  "destroyHandlers st = Some hs0 \<Longrightarrow>
     destroyHandlers (register_all hs st) = Some (hs0 @ hs)
     \<and> invoked (register_all hs st) = invoked st
     \<and> promises (register_all hs st) = promises st"
  by (induction hs arbitrary: st hs0) (simp_all add: addDestroyHandler_def)

lemma destroy_prefix:
  "destroyHandlers st = Some hs \<Longrightarrow> \<exists>k. invoked (snd (destroy st)) = invoked st @ take k hs"
proof -
  assume c: "destroyHandlers st = Some hs"
  obtain r st1 where r: "run_handlers hs st = (r, st1)" by (cases "run_handlers hs st")
  from run_handlers_prefix [of hs st] r obtain k where "invoked st1 = invoked st @ take k hs"
    by auto
  moreover have "invoked (snd (destroy st)) = invoked st1"
    using c r by (cases r) (simp_all add: destroy_def Let_def)
  ultimately show ?thesis by auto
qed

text \<open>
  Claim C6, as amended. \<^verbatim>\<open>destroy()\<close> calls the handlers in the order in which they were
  registered, the first registered first: registering \<open>hs\<close> on a view whose chain is
  \<open>hs0\<close> gives the chain \<open>hs0 @ hs\<close> and calls nothing; \<^verbatim>\<open>destroy()\<close> then calls an
  initial segment of that chain, in that order, and the whole chain when no handler
  throws.
\<close>

theorem destroy_registration_order:
  "destroyHandlers st = Some hs0 \<Longrightarrow>
     destroyHandlers (register_all hs st) = Some (hs0 @ hs)
     \<and> invoked (register_all hs st) = invoked st
     \<and> (\<exists>k. invoked (snd (destroy (register_all hs st))) = invoked st @ take k (hs0 @ hs))
     \<and> ((\<forall>h\<in>set (hs0 @ hs). \<not> throws h) \<longrightarrow>
          invoked (snd (destroy (register_all hs st))) = invoked st @ hs0 @ hs)"
proof -
  assume c: "destroyHandlers st = Some hs0"
  from register_all_enqueues [OF c, of hs]
  have r: "destroyHandlers (register_all hs st) = Some (hs0 @ hs)"
    "invoked (register_all hs st) = invoked st" by simp_all
  from destroy_prefix [OF r(1)] r(2)
  have "\<exists>k. invoked (snd (destroy (register_all hs st))) = invoked st @ take k (hs0 @ hs)" by simp
  moreover have "(\<forall>h\<in>set (hs0 @ hs). \<not> throws h) \<longrightarrow>
      invoked (snd (destroy (register_all hs st))) = invoked st @ hs0 @ hs"
    using destroy_first(2) [OF r(1)] r(2) by simp
  ultimately show ?thesis using r by blast
qed

theorem destroy_registration_order_witness:
  "destroyHandlers (new_VegaBaseView None False) = Some []
   \<and> \<not> throws (Custom 1 Returns) \<and> \<not> throws (Custom 2 Fulfils)
   \<and> invoked (snd (destroy (register_all [Custom 1 Returns, Custom 2 Fulfils]
                               (new_VegaBaseView None False)))) =
       [Custom 1 Returns, Custom 2 Fulfils]"
proof -
  have c: "destroyHandlers (new_VegaBaseView None False) = Some []"
    by (simp add: new_VegaBaseView_def)
  have i: "invoked (new_VegaBaseView None False) = []" by (simp add: new_VegaBaseView_def)
  show ?thesis
    using destroy_registration_order [OF c, of "[Custom 1 Returns, Custom 2 Fulfils]"] c i
    by simp
qed

text \<open>
  Claim C6 as stated fails: with handler 1 registered before handler 2, \<^verbatim>\<open>destroy()\<close>
  calls 1 and then 2, which is not the reverse of the registration order.
\<close>

theorem destroy_registration_order_counterexample:
  "invoked (snd (destroy two_handler_view)) = [Custom 1 Returns, Custom 2 Fulfils]
   \<and> invoked (snd (destroy two_handler_view)) \<noteq> rev [Custom 1 Returns, Custom 2 Fulfils]"
  by (simp add: two_handler_view_def new_VegaBaseView_def addDestroyHandler_def
      destroy_def run_handler_def)


lemma run_handlers_snoc:
  "\<forall>g\<in>set hs. \<not> throws g \<Longrightarrow>
     invoked (snd (run_handlers (hs @ [h]) st)) = invoked st @ hs @ [h]"
proof (induction hs arbitrary: st)
  case Nil
  obtain r st1 where r: "run_handler h st = (r, st1)" by (cases "run_handler h st")
  with run_handler_invoked [of h st] show ?case by (cases r) simp_all
next
  case (Cons g gs)
  obtain r st1 where r: "run_handler g st = (r, st1)" by (cases "run_handler g st")
  have i: "invoked st1 = invoked st @ [g]" using run_handler_invoked [of g st] r by simp
  have v: "r = Inr (returned g)" using run_handler_result [of g st] r Cons.prems by simp
  obtain r2 st2 where r2: "run_handlers (gs @ [h]) st1 = (r2, st2)"
    by (cases "run_handlers (gs @ [h]) st1")
  from Cons.IH [of st1] Cons.prems r2 have "invoked st2 = invoked st1 @ gs @ [h]" by simp
  with r v r2 i show ?case by (cases r2) simp_all
qed

text \<open>
  Claim C10, as amended. When the chain has been claimed (\<^verbatim>\<open>_destroyHandlers\<close> is
  \<^verbatim>\<open>null\<close>), \<^verbatim>\<open>_addDestroyHandler(h)\<close> calls \<open>h\<close> at once and leaves \<^verbatim>\<open>_ongoingDestroy\<close>
  as it is, so the promise a later \<^verbatim>\<open>destroy()\<close> returns is the old one and does not wait
  for \<open>h\<close>. When teardown has not begun, \<^verbatim>\<open>_addDestroyHandler(h)\<close> only appends \<open>h\<close> to
  the chain and calls nothing. The next \<^verbatim>\<open>destroy()\<close> calls \<open>h\<close> last, after the handlers
  registered before it, when none of those throws; when one of them throws, the run ends
  there and does not reach \<open>h\<close>. After a completed \<^verbatim>\<open>destroy()\<close>, a handler registered
  late is called at registration and the promise still waits for the values of the earlier
  handlers only.
\<close>

theorem late_handler_runs_at_registration:
  "(destroyHandlers st = None \<longrightarrow>
      invoked (snd (addDestroyHandler h st)) = invoked st @ [h]
      \<and> destroyHandlers (snd (addDestroyHandler h st)) = None
      \<and> ongoingDestroy (snd (addDestroyHandler h st)) = ongoingDestroy st
      \<and> destroy (snd (addDestroyHandler h st)) = (Inr (ongoingDestroy st), snd (addDestroyHandler h st)))
   \<and> (destroyHandlers st = Some hs \<longrightarrow>
      addDestroyHandler h st = (Inr (), st\<lparr>destroyHandlers := Some (hs @ [h])\<rparr>)
      \<and> invoked (snd (addDestroyHandler h st)) = invoked st
      \<and> ((\<exists>g\<in>set hs. throws g) \<longrightarrow>
           invoked (snd (destroy (snd (addDestroyHandler h st)))) =
             invoked st @ called_until_throw hs)
      \<and> ((\<forall>g\<in>set hs. \<not> throws g) \<longrightarrow>
           invoked (snd (destroy (snd (addDestroyHandler h st)))) = invoked st @ hs @ [h]
           \<and> fst (destroy (snd (destroy st))) = Inr (Some (PromiseAll (promises st) (map returned hs)))
           \<and> fst (destroy (snd (addDestroyHandler h (snd (destroy st))))) =
               Inr (Some (PromiseAll (promises st) (map returned hs)))
           \<and> invoked (snd (addDestroyHandler h (snd (destroy st)))) = invoked st @ hs @ [h]))"
proof (intro conjI impI)
  assume n: "destroyHandlers st = None"
  obtain r st1 where r: "run_handler h st = (r, st1)" by (cases "run_handler h st")
  have s: "snd (addDestroyHandler h st) = st1"
    using n r by (cases r) (simp_all add: addDestroyHandler_def)
  have f: "destroyHandlers st1 = None" "ongoingDestroy st1 = ongoingDestroy st"
    "invoked st1 = invoked st @ [h]"
    using run_handler_frame [of h st] run_handler_invoked [of h st] r n by simp_all
  show "invoked (snd (addDestroyHandler h st)) = invoked st @ [h]" using s f by simp
  show "destroyHandlers (snd (addDestroyHandler h st)) = None" using s f by simp
  show "ongoingDestroy (snd (addDestroyHandler h st)) = ongoingDestroy st" using s f by simp
  show "destroy (snd (addDestroyHandler h st)) = (Inr (ongoingDestroy st), snd (addDestroyHandler h st))"
    using s f destroy_claimed [of st1] by simp
next
  assume c: "destroyHandlers st = Some hs"
  show a: "addDestroyHandler h st = (Inr (), st\<lparr>destroyHandlers := Some (hs @ [h])\<rparr>)"
    using c by (simp add: addDestroyHandler_def)
  show "invoked (snd (addDestroyHandler h st)) = invoked st" using a by simp
next
  assume c: "destroyHandlers st = Some hs" and t: "\<exists>g\<in>set hs. throws g"
  have a: "addDestroyHandler h st = (Inr (), st\<lparr>destroyHandlers := Some (hs @ [h])\<rparr>)"
    using c by (simp add: addDestroyHandler_def)
  let ?st = "st\<lparr>destroyHandlers := Some (hs @ [h])\<rparr>"
  from t have t': "\<exists>g\<in>set (hs @ [h]). throws g" by auto
  have "invoked (snd (destroy ?st)) = invoked ?st @ called_until_throw (hs @ [h])"
    by (rule destroy_throwing(2) [OF _ t']) simp
  then show "invoked (snd (destroy (snd (addDestroyHandler h st)))) =
      invoked st @ called_until_throw hs"
    using a called_until_throw_cut [OF t, of "[h]"] by simp
next
  assume c: "destroyHandlers st = Some hs" and t: "\<forall>g\<in>set hs. \<not> throws g"
  have a: "addDestroyHandler h st = (Inr (), st\<lparr>destroyHandlers := Some (hs @ [h])\<rparr>)"
    using c by (simp add: addDestroyHandler_def)
  let ?st = "st\<lparr>destroyHandlers := Some (hs @ [h])\<rparr>"
  obtain r st1 where r: "run_handlers (hs @ [h]) ?st = (r, st1)"
    by (cases "run_handlers (hs @ [h]) ?st")
  from run_handlers_prefix [of "hs @ [h]" ?st] r
  obtain k where k: "invoked st1 = invoked st @ take k (hs @ [h])" by auto
  have d: "invoked (snd (destroy ?st)) = invoked st1"
    using r by (cases r) (simp_all add: destroy_def Let_def)
  show "invoked (snd (destroy (snd (addDestroyHandler h st)))) = invoked st @ hs @ [h]"
  proof (cases "throws h")
    case False
    with t have "\<forall>g\<in>set (hs @ [h]). \<not> throws g" by simp
    from destroy_first(2) [of ?st "hs @ [h]", OF _ this] a show ?thesis by simp
  next
    case True
    have "invoked (snd (run_handlers (hs @ [h]) ?st)) = invoked st @ hs @ [h]"
      using run_handlers_snoc [OF t, of h ?st] by simp
    with d r a show ?thesis by simp
  qed
  obtain q st2 where q: "destroy st = (q, st2)" by (cases "destroy st")
  from destroy_first [OF c t] q
  have f: "q = Inr (Some (PromiseAll (promises st) (map returned hs)))"
    "invoked st2 = invoked st @ hs" "destroyHandlers st2 = None"
    "ongoingDestroy st2 = Some (PromiseAll (promises st) (map returned hs))" by simp_all
  show "fst (destroy (snd (destroy st))) = Inr (Some (PromiseAll (promises st) (map returned hs)))"
    using q f destroy_claimed [of st2] by simp
  obtain r3 st3 where r3: "run_handler h st2 = (r3, st3)" by (cases "run_handler h st2")
  have s3: "snd (addDestroyHandler h st2) = st3"
    using f(3) r3 by (cases r3) (simp_all add: addDestroyHandler_def)
  have f3: "destroyHandlers st3 = None" "ongoingDestroy st3 = ongoingDestroy st2"
    "invoked st3 = invoked st2 @ [h]"
    using run_handler_frame [of h st2] run_handler_invoked [of h st2] r3 f(3) by simp_all
  show "fst (destroy (snd (addDestroyHandler h (snd (destroy st))))) =
      Inr (Some (PromiseAll (promises st) (map returned hs)))"
    using q s3 f3 f destroy_claimed [of st3] by simp
  show "invoked (snd (addDestroyHandler h (snd (destroy st)))) = invoked st @ hs @ [h]"
    using q s3 f3 f by simp
qed


theorem late_handler_runs_at_registration_witness:
  "destroyHandlers (snd (destroy two_handler_view)) = None
   \<and> invoked (snd (addDestroyHandler (Custom 9 Rejects) (snd (destroy two_handler_view)))) =
       [Custom 1 Returns, Custom 2 Fulfils, Custom 9 Rejects]
   \<and> fst (destroy (snd (addDestroyHandler (Custom 9 Rejects) (snd (destroy two_handler_view))))) =
       Inr (Some (PromiseAll 0 [Plain, PromiseOf True]))
   \<and> destroyHandlers two_handler_view = Some [Custom 1 Returns, Custom 2 Fulfils]
   \<and> \<not> throws (Custom 1 Returns) \<and> \<not> throws (Custom 2 Fulfils)
   \<and> invoked (snd (addDestroyHandler (Custom 9 Rejects) two_handler_view)) = []
   \<and> invoked (snd (destroy (snd (addDestroyHandler (Custom 9 Rejects) two_handler_view)))) =
       [Custom 1 Returns, Custom 2 Fulfils, Custom 9 Rejects]
   \<and> destroyHandlers failing_view = Some [Custom 1 Returns, Custom 2 Throws]
   \<and> throws (Custom 2 Throws)
   \<and> invoked (snd (destroy (snd (addDestroyHandler (Custom 9 Rejects) failing_view)))) =
       [Custom 1 Returns, Custom 2 Throws]"
  using late_handler_runs_at_registration
      [of "snd (destroy two_handler_view)" "Custom 9 Rejects" "[]"]
    late_handler_runs_at_registration
      [of two_handler_view "Custom 9 Rejects" "[Custom 1 Returns, Custom 2 Fulfils]"]
    late_handler_runs_at_registration
      [of failing_view "Custom 9 Rejects" "[Custom 1 Returns, Custom 2 Throws]"]
  by (simp add: two_handler_view_def failing_view_def new_VegaBaseView_def addDestroyHandler_def
      destroy_def run_handler_def)

text \<open>
  Claim C10 as stated fails. On the view whose second handler throws, a handler registered
  before teardown is only enqueued, and no \<^verbatim>\<open>destroy()\<close> ever calls it: each of three calls
  runs the first two handlers and throws at the second.
\<close>

theorem late_handler_counterexample:
  "destroyHandlers failing_view = Some [Custom 1 Returns, Custom 2 Throws]
   \<and> destroyHandlers (snd (addDestroyHandler (Custom 9 Returns) failing_view)) =
       Some [Custom 1 Returns, Custom 2 Throws, Custom 9 Returns]
   \<and> invoked (snd (destroy_times 3 (snd (addDestroyHandler (Custom 9 Returns) failing_view)))) =
       [Custom 1 Returns, Custom 2 Throws, Custom 1 Returns, Custom 2 Throws,
        Custom 1 Returns, Custom 2 Throws]
   \<and> Custom 9 Returns \<notin>
       set (invoked (snd (destroy_times 3 (snd (addDestroyHandler (Custom 9 Returns) failing_view)))))"
  by (simp add: failing_view_def new_VegaBaseView_def addDestroyHandler_def
      destroy_def run_handler_def numeral_3_eq_3)

subsection \<open>The loader's URL gate\<close>

lemma symbol_free_props_lookup:
  "symbol_free_props ps \<Longrightarrow> map_of ps k = Some v \<Longrightarrow> symbol_free v"
  by (induction ps) (auto split: if_splits)

lemma symbol_free_token:
  "symbol_free uri \<Longrightarrow> get_prop uri k = Inr token \<Longrightarrow> token \<noteq> bypassToken"
  by (cases uri) (auto simp: bypassToken_def split: option.splits dest: symbol_free_props_lookup)

lemma get_prop_defined:
  "uri \<noteq> JUndefined \<Longrightarrow> uri \<noteq> JNull \<Longrightarrow> \<exists>token. get_prop uri k = Inr token"
  by (cases uri) simp_all

text \<open>
  Claim C2, as amended. For every URI other than \<^verbatim>\<open>null\<close> and \<^verbatim>\<open>undefined\<close> (every other
  value has a \<^verbatim>\<open>bypassToken\<close> property to read, \<^verbatim>\<open>undefined\<close> when it is missing) passed to
  the wrapped \<^verbatim>\<open>sanitize\<close>: a URI made by \<^verbatim>\<open>bypassExternalUrlCheck\<close>, and any URI whose
  \<^verbatim>\<open>bypassToken\<close> property is the module's symbol itself, goes to the original sanitize
  step as its inner \<^verbatim>\<open>url\<close>, whatever the external URL setting says, and the result is
  that step's result. A URI whose \<^verbatim>\<open>bypassToken\<close> property is any other value is refused
  with the message about \<^verbatim>\<open>vis_type_vega.enableExternalUrls\<close> when external URLs are
  disabled, and goes to the original sanitize step unchanged when they are enabled. The
  token is a symbol, so no value made of JSON data carries it: with external URLs
  disabled, every such URI is refused, whatever properties it imitates.
\<close>

theorem sanitize_gate:
  "sanitize env st (bypassExternalUrlCheck url) options = originalSanitize env url options
   \<and> (get_prop uri ''bypassToken'' = Inr bypassToken \<and> get_prop uri ''url'' = Inr inner \<longrightarrow>
        sanitize env st uri options = originalSanitize env inner options)
   \<and> (get_prop uri ''bypassToken'' = Inr token \<and> token \<noteq> bypassToken \<and> \<not> enableExternalUrls st \<longrightarrow>
        sanitize env st uri options =
          Inl (Error ''External URLs are not enabled. Add   vis_type_vega.enableExternalUrls: true   to opensearch_dashboards.yml''))
   \<and> (get_prop uri ''bypassToken'' = Inr token \<and> token \<noteq> bypassToken \<and> enableExternalUrls st \<longrightarrow>
        sanitize env st uri options = originalSanitize env uri options)
   \<and> (uri \<noteq> JUndefined \<and> uri \<noteq> JNull \<longrightarrow> (\<exists>v. get_prop uri ''bypassToken'' = Inr v))
   \<and> (symbol_free uri \<and> uri \<noteq> JUndefined \<and> uri \<noteq> JNull \<and> \<not> enableExternalUrls st \<longrightarrow>
        sanitize env st uri options =
          Inl (Error ''External URLs are not enabled. Add   vis_type_vega.enableExternalUrls: true   to opensearch_dashboards.yml''))
   \<and> (symbol_free uri \<and> \<not> enableExternalUrls st \<longrightarrow> (\<exists>e. sanitize env st uri options = Inl e))"
proof -
  have gate: "sanitize env st (bypassExternalUrlCheck url) options = originalSanitize env url options
   \<and> (get_prop uri ''bypassToken'' = Inr bypassToken \<and> get_prop uri ''url'' = Inr inner \<longrightarrow>
        sanitize env st uri options = originalSanitize env inner options)
   \<and> (get_prop uri ''bypassToken'' = Inr token \<and> token \<noteq> bypassToken \<and> \<not> enableExternalUrls st \<longrightarrow>
        sanitize env st uri options =
          Inl (Error ''External URLs are not enabled. Add   vis_type_vega.enableExternalUrls: true   to opensearch_dashboards.yml''))
   \<and> (get_prop uri ''bypassToken'' = Inr token \<and> token \<noteq> bypassToken \<and> enableExternalUrls st \<longrightarrow>
        sanitize env st uri options = originalSanitize env uri options)"
    by (simp add: sanitize_def bypassExternalUrlCheck_def externalUrlsAreNotEnabledErrorMessage_def)
  have defined: "uri \<noteq> JUndefined \<and> uri \<noteq> JNull \<longrightarrow> (\<exists>v. get_prop uri ''bypassToken'' = Inr v)"
    using get_prop_defined [of uri "''bypassToken''"] by blast
  have json: "symbol_free uri \<and> uri \<noteq> JUndefined \<and> uri \<noteq> JNull \<and> \<not> enableExternalUrls st \<longrightarrow>
        sanitize env st uri options =
          Inl (Error ''External URLs are not enabled. Add   vis_type_vega.enableExternalUrls: true   to opensearch_dashboards.yml'')"
  proof
    assume a: "symbol_free uri \<and> uri \<noteq> JUndefined \<and> uri \<noteq> JNull \<and> \<not> enableExternalUrls st"
    with get_prop_defined [of uri "''bypassToken''"]
    obtain v where v: "get_prop uri ''bypassToken'' = Inr v" by blast
    with a symbol_free_token [of uri "''bypassToken''" v] have "v \<noteq> bypassToken" by simp
    with v a show "sanitize env st uri options =
          Inl (Error ''External URLs are not enabled. Add   vis_type_vega.enableExternalUrls: true   to opensearch_dashboards.yml'')"
      by (simp add: sanitize_def externalUrlsAreNotEnabledErrorMessage_def)
  qed
  have fails: "symbol_free uri \<and> \<not> enableExternalUrls st \<longrightarrow> (\<exists>e. sanitize env st uri options = Inl e)"
  proof
    assume a: "symbol_free uri \<and> \<not> enableExternalUrls st"
    show "\<exists>e. sanitize env st uri options = Inl e"
    proof (cases "uri = JUndefined \<or> uri = JNull")
      case True
      then show ?thesis by (auto simp: sanitize_def)
    next
      case False
      with a json show ?thesis by simp
    qed
  qed
  from gate defined json fails show ?thesis by blast
qed

theorem sanitize_gate_witness:
  "\<not> enableExternalUrls example_view
   \<and> sanitize example_env example_view (bypassExternalUrlCheck (JStr ''http://example.org/data.json'')) JUndefined =
       Inr (JObj [(''href'', JStr ''http://example.org/data.json'')])
   \<and> get_prop forged_uri ''bypassToken'' = Inr (JSym 1) \<and> JSym 1 \<noteq> bypassToken
   \<and> sanitize example_env example_view forged_uri JUndefined =
       Inl (Error ''External URLs are not enabled. Add   vis_type_vega.enableExternalUrls: true   to opensearch_dashboards.yml'')
   \<and> symbol_free json_forged_uri \<and> json_forged_uri \<noteq> JUndefined \<and> json_forged_uri \<noteq> JNull
   \<and> sanitize example_env example_view json_forged_uri JUndefined =
       Inl (Error ''External URLs are not enabled. Add   vis_type_vega.enableExternalUrls: true   to opensearch_dashboards.yml'')
   \<and> enableExternalUrls enabled_view
   \<and> get_prop (JStr ''http://example.org/data.json'') ''bypassToken'' = Inr JUndefined
   \<and> JUndefined \<noteq> bypassToken
   \<and> sanitize example_env enabled_view (JStr ''http://example.org/data.json'') JUndefined =
       Inr (JObj [(''href'', JStr ''http://example.org/data.json'')])"
  using sanitize_gate [of example_env example_view "JStr ''http://example.org/data.json''" JUndefined
      forged_uri "JStr ''http://example.org/data.json''" "JSym 1"]
    sanitize_gate [of example_env example_view "JStr ''http://example.org/data.json''" JUndefined
      json_forged_uri "JStr ''http://example.org/data.json''" JNull]
    sanitize_gate [of example_env enabled_view
      "JStr ''http://example.org/data.json''" JUndefined
      "JStr ''http://example.org/data.json''" JUndefined JUndefined]
  by (simp add: example_simps example_view_def enabled_view_def new_VegaBaseView_def
      forged_uri_def json_forged_uri_def bypassToken_def)

text \<open>
  Claim C2 as stated fails on the URI \<^verbatim>\<open>null\<close>, which carries no token: with external URLs
  enabled the wrapper does not apply the original sanitize step, which would refuse the
  value with its own error; the read of \<^verbatim>\<open>uri.bypassToken\<close> throws a \<^verbatim>\<open>TypeError\<close> first.
\<close>

theorem sanitize_gate_counterexample:
  "enableExternalUrls enabled_view
   \<and> sanitize example_env enabled_view JNull JUndefined =
       Inl (TypeError ''Cannot read properties of null (reading bypassToken)'')
   \<and> originalSanitize example_env JNull JUndefined = Inl (Error ''Sanitize failure, invalid URI'')
   \<and> sanitize example_env enabled_view JNull JUndefined \<noteq> originalSanitize example_env JNull JUndefined"
  by (simp add: sanitize_def example_simps enabled_view_def new_VegaBaseView_def)

subsection \<open>The expression function bridge\<close>

text \<open>
  Claim C5. \<^verbatim>\<open>vegaFunctionsHandler\<close> never throws to its caller, whatever the name, the
  arguments and the instance's methods are. A name outside the table, and a name of the
  table whose handler method the instance lacks, give the error
  \<^verbatim>\<open>name() is not defined for this graph\<close>; that error, like any error the routed
  handler throws, goes to \<^verbatim>\<open>onError\<close>, which appends one error record to the message
  sink. (\<^verbatim>\<open>Utils.formatErrorToStr\<close> is taken not to throw.)
\<close>

theorem bridge_never_throws:
  "fst (vegaFunctionsHandler env methods funcName args st) = Inr ()
   \<and> (funcName \<notin> fst ` set vegaFunctions \<longrightarrow>
        snd (vegaFunctionsHandler env methods funcName args st) =
          onError env (Error (funcName @ ''() is not defined for this graph'')) st)
   \<and> (map_of vegaFunctions funcName = Some handlerFunc \<and> methods handlerFunc = None \<longrightarrow>
        snd (vegaFunctionsHandler env methods funcName args st) =
          onError env (Error (funcName @ ''() is not defined for this graph'')) st)
   \<and> (map_of vegaFunctions funcName = Some handlerFunc \<and> methods handlerFunc = Some m
        \<and> m args st = (Inl e, st1) \<longrightarrow>
        snd (vegaFunctionsHandler env methods funcName args st) = onError env e st1)
   \<and> (map_of vegaFunctions funcName = Some handlerFunc \<and> methods handlerFunc = Some m
        \<and> m args st = (Inr u, st1) \<longrightarrow>
        snd (vegaFunctionsHandler env methods funcName args st) = st1)
   \<and> sink (onError env e st) = sink st @ [(Err, formatErrorToStr env e)]"
proof -
  have a: "funcName \<notin> fst ` set vegaFunctions \<Longrightarrow> map_of vegaFunctions funcName = None"
    by (simp add: map_of_eq_None_iff)
  show ?thesis
    using a
    by (auto simp: vegaFunctionsHandler_def dispatch_def try_catch_def onError_def addMessage_def
        sink_def functionIsNotDefinedForGraphErrorMessage_def
        split: option.splits sum.splits prod.splits)
qed


theorem bridge_never_throws_witness:
  "''noSuchFunction'' \<notin> fst ` set vegaFunctions
   \<and> vegaFunctionsHandler example_env (VegaBaseView_methods example_env) ''noSuchFunction'' [] example_view =
       (Inr (), example_view\<lparr>messages := Some [(Err, ''noSuchFunction() is not defined for this graph'')]\<rparr>)
   \<and> map_of vegaFunctions ''opensearchDashboardsAddFilter'' = Some ''addFilterHandler''
   \<and> no_methods ''addFilterHandler'' = None
   \<and> vegaFunctionsHandler example_env no_methods ''opensearchDashboardsAddFilter'' [] example_view =
       (Inr (), example_view\<lparr>messages := Some [(Err, ''opensearchDashboardsAddFilter() is not defined for this graph'')]\<rparr>)
   \<and> map_of vegaFunctions ''opensearchDashboardsSetTimeFilter'' = Some ''setTimeFilterHandler''
   \<and> fst (setTimeFilterHandler example_env (JStr ''x'') (JStr ''y'') example_view) =
       Inl (Error (timeValuesTypeErrorMessage example_env (JStr ''x'') (JStr ''y'')))
   \<and> vegaFunctionsHandler example_env (VegaBaseView_methods example_env)
         ''opensearchDashboardsSetTimeFilter'' [JStr ''x'', JStr ''y''] example_view =
       (Inr (), example_view\<lparr>messages :=
          Some [(Err, timeValuesTypeErrorMessage example_env (JStr ''x'') (JStr ''y''))]\<rparr>)"
  using bridge_never_throws [of example_env "VegaBaseView_methods example_env" "''noSuchFunction''"
      "[]" example_view]
    bridge_never_throws [of example_env no_methods "''opensearchDashboardsAddFilter''"
      "[]" example_view "''addFilterHandler''"]
    bridge_never_throws [of example_env "VegaBaseView_methods example_env"
      "''opensearchDashboardsSetTimeFilter''" "[JStr ''x'', JStr ''y'']" example_view
      "''setTimeFilterHandler''"]
  by (simp add: vegaFunctionsHandler_def dispatch_def try_catch_def onError_def addMessage_def
      vegaFunctions_def VegaBaseView_methods_def no_methods_def setTimeFilterHandler_def
      parseTimeRange_def arg_def functionIsNotDefinedForGraphErrorMessage_def
      example_simps example_view_def new_VegaBaseView_def)

subsection \<open>Index resolution\<close>

text \<open>
  Claim C8. \<^verbatim>\<open>findIndex\<close> without an explicit index (\<^verbatim>\<open>undefined\<close>, or the empty string,
  which \<^verbatim>\<open>if (index)\<close> treats alike) returns the id of the first index pattern the spec
  names; when the spec names none, the id of the host's default index pattern; when there
  is no default either, it throws \<^verbatim>\<open>Unable to find default index\<close>. With an explicit index
  that the host does not find it throws \<^verbatim>\<open>Index "..." not found\<close> and does not fall back;
  with one it finds, it returns that pattern's id. \<^verbatim>\<open>addFilterHandler\<close> throws what
  \<^verbatim>\<open>findIndex\<close> throws, calling nothing, and otherwise applies one query filter built for
  the resolved id.
\<close>

theorem index_fallback_chain:
  "((index = None \<or> index = Some []) \<and> parser st = Some p
      \<and> extractIndexPatternsFromSpec env (if isVegaLite p then vlspec p else spec p) = Inr (idxObj # rest)
      \<longrightarrow> findIndex env st index = Inr (ip_id idxObj))
   \<and> ((index = None \<or> index = Some []) \<and> parser st = Some p
      \<and> extractIndexPatternsFromSpec env (if isVegaLite p then vlspec p else spec p) = Inr []
      \<and> indexPatterns_getDefault env = Inr (Some defaultIdx)
      \<longrightarrow> findIndex env st index = Inr (ip_id defaultIdx))
   \<and> ((index = None \<or> index = Some []) \<and> parser st = Some p
      \<and> extractIndexPatternsFromSpec env (if isVegaLite p then vlspec p else spec p) = Inr []
      \<and> indexPatterns_getDefault env = Inr None
      \<longrightarrow> findIndex env st index = Inl (Error ''Unable to find default index''))
   \<and> (index = Some title \<and> title \<noteq> [] \<and> indexPatterns_find env title = Inr []
      \<longrightarrow> findIndex env st index = Inl (Error (''Index '' @ [CHR 0x22] @ title @ [CHR 0x22] @ '' not found'')))
   \<and> (index = Some title \<and> title \<noteq> [] \<and> indexPatterns_find env title = Inr (idxObj # rest)
      \<longrightarrow> findIndex env st index = Inr (ip_id idxObj))
   \<and> (findIndex env st (handleNonStringIndex env i) = Inl e
      \<longrightarrow> addFilterHandler env query i alias st = (Inl e, st))
   \<and> (findIndex env st (handleNonStringIndex env i) = Inr indexId \<and> handleInvalidQuery env query = Inr q
      \<longrightarrow> addFilterHandler env query i alias st =
            (Inr (), st\<lparr>applied := applied st @
               [\<lparr>timeFieldName = None, filters = [QueryFilter (buildQueryFilter env q indexId alias)]\<rparr>]\<rparr>))"
  by (auto simp: findIndex_def addFilterHandler_def applyFilter_def indexNotFoundErrorMessage_def
      unableToFindDefaultIndexErrorMessage_def)


theorem index_fallback_chain_witness:
  "parser example_view = Some example_parser
   \<and> extractIndexPatternsFromSpec spec_index_env (spec example_parser) =
       Inr [IndexPattern ''id-spec'' ''spec-index'']
   \<and> findIndex spec_index_env example_view None = Inr ''id-spec''
   \<and> extractIndexPatternsFromSpec example_env (spec example_parser) = Inr []
   \<and> indexPatterns_getDefault example_env = Inr (Some (IndexPattern ''id-default'' ''default''))
   \<and> findIndex example_env example_view None = Inr ''id-default''
   \<and> indexPatterns_getDefault no_default_env = Inr None
   \<and> findIndex no_default_env example_view None = Inl (Error ''Unable to find default index'')
   \<and> indexPatterns_find example_env ''missing'' = Inr []
   \<and> findIndex example_env example_view (Some ''missing'') =
       Inl (Error (''Index '' @ [CHR 0x22] @ ''missing'' @ [CHR 0x22] @ '' not found''))
   \<and> findIndex example_env example_view (Some ''logs'') = Inr ''id-logs''
   \<and> addFilterHandler example_env (JObj []) (JStr ''missing'') JUndefined example_view =
       (Inl (Error (''Index '' @ [CHR 0x22] @ ''missing'' @ [CHR 0x22] @ '' not found'')), example_view)
   \<and> applied (snd (addFilterHandler example_env (JObj []) JUndefined (JStr ''label'') example_view)) =
       [\<lparr>timeFieldName = None,
         filters = [QueryFilter (JObj [(''query'', JObj []), (''index'', JStr ''id-default''),
                                       (''alias'', JStr ''label'')])]\<rparr>]"
  using index_fallback_chain [of None example_view example_parser spec_index_env
      "IndexPattern ''id-spec'' ''spec-index''" "[]"]
    index_fallback_chain [of None example_view example_parser example_env _ _
      "IndexPattern ''id-default'' ''default''" _ "JStr ''missing''"
      "Error (''Index '' @ [CHR 0x22] @ ''missing'' @ [CHR 0x22] @ '' not found'')"
      "JObj []" JUndefined]
    index_fallback_chain [of None example_view example_parser no_default_env]
    index_fallback_chain [of "Some ''missing''" example_view _ example_env _ _ _ "''missing''"]
    index_fallback_chain [of "Some ''logs''" example_view _ example_env
      "IndexPattern ''id-logs'' ''logs''" "[]" _ "''logs''" JUndefined _ "JObj []" "JStr ''label''"
      "''id-default''" "JObj []"]
  by (simp add: example_simps spec_index_env_def no_default_env_def example_extract_spec_def
      example_view_def example_parser_def new_VegaBaseView_def)

subsection \<open>The message sink\<close>

lemma warnings_folded:
  "foldl (\<lambda>s warn. addMessage Warn warn s) st ws =
     (if ws = [] then st else st\<lparr>messages := Some (sink st @ map (Pair Warn) ws)\<rparr>)"
proof (induction ws arbitrary: st)
  case Nil
  show ?case by simp
next
  case (Cons w ws)
  show ?case unfolding foldl_Cons Cons.IH by (simp add: addMessage_def sink_def)
qed

lemma sink_warnings_folded:
  "sink (foldl (\<lambda>s warn. addMessage Warn warn s) st ws) = sink st @ map (Pair Warn) ws"
  by (simp add: warnings_folded) (simp add: sink_def)

text \<open>
  Claim C9, as amended. When the parser asks for warnings to be hidden, \<^verbatim>\<open>onWarn\<close> appends
  nothing: the controller is unchanged. The parse warnings are another matter: the first
  \<^verbatim>\<open>init()\<close> of a view whose teardown has not begun appends every one of them to the sink,
  in order, whatever \<^verbatim>\<open>hideWarnings\<close> says (the customization step of the derived class is
  taken to leave the records of the sink in place).
\<close>

theorem warnings_suppressed_except_init:
  "(parser st = Some p \<and> hideWarnings p \<longrightarrow> onWarn env arguments st = st)
   \<and> (\<not> initialized st \<and> parser st = Some p \<and> destroyHandlers st = Some hs
        \<and> (\<forall>s. \<exists>r. sink (snd (initViewCustomizations s)) = sink s @ r)
      \<longrightarrow> (\<exists>r. sink (snd (init env initViewCustomizations st)) =
                  sink st @ map (Pair Warn) (warnings p) @ r))"
proof (intro conjI impI)
  assume "parser st = Some p \<and> hideWarnings p"
  then show "onWarn env arguments st = st" by (simp add: onWarn_def)
next
  assume a: "\<not> initialized st \<and> parser st = Some p \<and> destroyHandlers st = Some hs
        \<and> (\<forall>s. \<exists>r. sink (snd (initViewCustomizations s)) = sink s @ r)"
  let ?st0 = "st\<lparr>initialized := True\<rparr>"
  let ?st1 = "foldl (\<lambda>s warn. addMessage Warn warn s) ?st0 (warnings p)"
  have s1: "sink ?st1 = sink st @ map (Pair Warn) (warnings p)"
    using sink_warnings_folded [of ?st0 "warnings p"] by (simp add: sink_def)
  have f1: "destroyHandlers ?st1 = Some hs" "parser ?st1 = Some p"
    using a by (simp_all add: warnings_folded)
  have i: "init env initViewCustomizations st =
      try_catch (init_body initViewCustomizations ?st0) (onError env)"
    using a by (simp add: init_def)
  show "\<exists>r. sink (snd (init env initViewCustomizations st)) =
      sink st @ map (Pair Warn) (warnings p) @ r"
  proof (cases "parser_error p \<noteq> None \<and> parser_error p \<noteq> Some []")
    case True
    then have "init_body initViewCustomizations ?st0 =
        (Inr (), addMessage Err (the (parser_error p)) ?st1)"
      using a by (simp add: init_body_def Let_def)
    then have "sink (snd (init env initViewCustomizations st)) =
        sink ?st1 @ [(Err, the (parser_error p))]"
      using i by (simp add: try_catch_def addMessage_def sink_def)
    with s1 show ?thesis by simp
  next
    case False
    let ?st3 = "?st1\<lparr>container := True, controls := True,
        destroyHandlers := Some (hs @ [DomCleanup])\<rparr>"
    let ?config = "\<lparr>logLevel = ''Warn'', config_renderer = renderer p\<rparr>"
    let ?st4 = "?st3\<lparr>vegaViewConfig := Some ?config\<rparr>"
    have b: "init_body initViewCustomizations ?st0 = initViewCustomizations ?st4"
      using a False f1
      by (auto simp: init_body_def Let_def addDestroyHandler_def createViewConfig_def)
    have s4: "sink ?st4 = sink ?st1" by (simp add: sink_def)
    from a obtain r where r: "sink (snd (initViewCustomizations ?st4)) = sink ?st4 @ r"
      by blast
    obtain res st5 where c: "initViewCustomizations ?st4 = (res, st5)"
      by (cases "initViewCustomizations ?st4")
    have "\<exists>r'. sink (snd (try_catch (res, st5) (onError env))) = sink st5 @ r'"
      by (cases res) (simp_all add: try_catch_def onError_def addMessage_def sink_def)
    then obtain r' where "sink (snd (init env initViewCustomizations st)) = sink st5 @ r'"
      using i b c by auto
    with r c s4 s1 show ?thesis by simp
  qed
qed

theorem warnings_suppressed_except_init_witness:
  "parser example_view = Some example_parser \<and> hideWarnings example_parser
   \<and> onWarn example_env [JStr ''slow signal''] example_view = example_view
   \<and> \<not> initialized example_view \<and> destroyHandlers example_view = Some []
   \<and> sink (snd (init example_env no_customizations example_view)) =
       sink example_view @ map (Pair Warn) (warnings example_parser) @ []"
proof -
  have c: "\<forall>s. \<exists>r. sink (snd (no_customizations s)) = sink s @ r"
    by (simp add: no_customizations_def)
  show ?thesis
    using warnings_suppressed_except_init
        [of example_view example_parser example_env "[JStr ''slow signal'']" "[]" no_customizations]
      c
    by (simp add: example_view_def example_parser_def new_VegaBaseView_def init_def init_body_def
        try_catch_def addMessage_def addDestroyHandler_def createViewConfig_def
        no_customizations_def sink_def)
qed

text \<open>
  Claim C9 as stated fails: with \<^verbatim>\<open>hideWarnings\<close> set and one parse warning, \<^verbatim>\<open>init()\<close>
  appends that warning to the empty sink.
\<close>

theorem warnings_suppressed_counterexample:
  "hideWarnings example_parser
   \<and> parser example_view = Some example_parser
   \<and> sink example_view = []
   \<and> sink (snd (init example_env no_customizations example_view)) = [(Warn, ''deprecated property'')]"
  by (simp add: example_view_def example_parser_def new_VegaBaseView_def init_def init_body_def
      try_catch_def addMessage_def addDestroyHandler_def createViewConfig_def
      no_customizations_def sink_def)

end
